theory Spec2Isabelle
  imports Complex_Main "HOL-Library.Sublist" "HOL-Library.Monad_Syntax"
begin

section \<open>JavaScript strings\<close>

text \<open>
  A JavaScript string is a sequence of UTF-16 code units. The texts that the content
  analyser scores, the identifiers of the one-time codes and the constants of the program
  are taken from the code units \<open>0..255\<close> (Basic Latin and Latin-1 Supplement), one
  \<^typ>\<open>char\<close> each, so that every \<^typ>\<open>string\<close> is a JavaScript string and the
  built-ins of this section are exact on it. The entities that the normaliser reads are
  sequences of arbitrary code units; their built-ins are in the next section.
\<close>

text \<open>
  White space of \<open>String.prototype.trim\<close> and of the regular expression class
  \<open>\s\<close> (ECMAScript WhiteSpace and LineTerminator): TAB, LF, VT, FF, CR, SP and NBSP
  are the ones below U+0100.
\<close>

definition isWhiteSpace :: "char \<Rightarrow> bool" where
  "isWhiteSpace c = ((of_char c :: nat) \<in> {9, 10, 11, 12, 13, 32, 160})"

text \<open>
  \<open>String.prototype.toLowerCase\<close> on one code unit: \<open>A..Z\<close>, and the Latin-1 capitals
  U+00C0..U+00DE except the multiplication sign U+00D7, move up by 32.
\<close>

definition toLowerChar :: "char \<Rightarrow> char" where
  "toLowerChar c =
     (let n = (of_char c :: nat)
      in if (65 \<le> n \<and> n \<le> 90) \<or> (192 \<le> n \<and> n \<le> 214) \<or> (216 \<le> n \<and> n \<le> 222)
         then char_of (n + 32) else c)"

definition toLowerCase :: "string \<Rightarrow> string" where
  "toLowerCase s = map toLowerChar s"

definition trim :: "string \<Rightarrow> string" where
  "trim s = rev (dropWhile isWhiteSpace (rev (dropWhile isWhiteSpace s)))"

text \<open>
  \<open>String.prototype.includes\<close>: the second string occurs in the first as a substring.
  (The name \<open>includes\<close> is a keyword of Isabelle.)
\<close>

fun includesStr :: "'a list \<Rightarrow> 'a list \<Rightarrow> bool" where
  "includesStr [] k = (k = [])"
| "includesStr (c # cs) k = (prefix k (c # cs) \<or> includesStr cs k)"

section \<open>Strings of UTF-16 code units\<close>

text \<open>
  An entity is a sequence of UTF-16 code units, each a number below \<open>0x10000\<close>.
  \<open>js\<close> gives the code units of a string of the program text.
\<close>

definition js :: "string \<Rightarrow> nat list" where
  "js s = map of_char s"

text \<open>
  White space of \<open>String.prototype.trim\<close> and of the class \<open>\s\<close>: the ECMAScript
  WhiteSpace code points (TAB, VT, FF, ZWNBSP and the Unicode space separators) and the
  LineTerminator code points (LF, CR, LS, PS).
\<close>

definition isWhiteSpace16 :: "nat \<Rightarrow> bool" where
  "isWhiteSpace16 u =
     (u \<in> {0x9, 0xA, 0xB, 0xC, 0xD, 0x20, 0xA0, 0x1680, 0x2028, 0x2029, 0x202F, 0x205F, 0x3000,
            0xFEFF}
      \<or> (0x2000 \<le> u \<and> u \<le> 0x200A))"

definition isHighSurrogate :: "nat \<Rightarrow> bool" where
  "isHighSurrogate u = (0xD800 \<le> u \<and> u \<le> 0xDBFF)"

definition isLowSurrogate :: "nat \<Rightarrow> bool" where
  "isLowSurrogate u = (0xDC00 \<le> u \<and> u \<le> 0xDFFF)"

text \<open>
  ECMAScript \<open>StringToCodePoints\<close>: a high surrogate followed by a low surrogate is one
  code point; every other code unit, a surrogate without its partner too, is a code point
  by itself.
\<close>

fun StringToCodePoints :: "nat list \<Rightarrow> nat list" where
  "StringToCodePoints (u # v # us) =
     (if isHighSurrogate u \<and> isLowSurrogate v
      then (0x10000 + (u - 0xD800) * 0x400 + (v - 0xDC00)) # StringToCodePoints us
      else u # StringToCodePoints (v # us))"
| "StringToCodePoints us = us"

text \<open>ECMAScript \<open>UTF16EncodeCodePoint\<close> and \<open>CodePointsToString\<close>.\<close>

definition UTF16EncodeCodePoint :: "nat \<Rightarrow> nat list" where
  "UTF16EncodeCodePoint cp =
     (if cp \<le> 0xFFFF then [cp]
      else [(cp - 0x10000) div 0x400 + 0xD800, (cp - 0x10000) mod 0x400 + 0xDC00])"

definition CodePointsToString :: "nat list \<Rightarrow> nat list" where
  "CodePointsToString cps = concat (map UTF16EncodeCodePoint cps)"

text \<open>
  The lower case of a code point below U+0100: \<open>A..Z\<close>, and the Latin-1 capitals
  U+00C0..U+00DE except the multiplication sign U+00D7, move up by \<open>0x20\<close>.
\<close>

definition latin1Lower :: "nat \<Rightarrow> nat" where
  "latin1Lower c =
     (if (0x41 \<le> c \<and> c \<le> 0x5A) \<or> (0xC0 \<le> c \<and> c \<le> 0xD6) \<or> (0xD8 \<le> c \<and> c \<le> 0xDE)
      then c + 0x20 else c)"

text \<open>
  The conversion \<open>toLowercase\<close> of the Unicode Default Case Conversion, on a sequence of
  code points. For a text below U+0100 it lowers each code point by itself (no rule of
  Unicode that looks at the context applies there). The tables of Unicode for the other
  texts are not part of the program: \<open>unicode\<close> stands for the conversion of Unicode on
  them.
\<close>

definition toLowercase :: "(nat list \<Rightarrow> nat list) \<Rightarrow> nat list \<Rightarrow> nat list" where
  "toLowercase unicode cps =
     (if list_all (\<lambda>c. c < 0x100) cps then map latin1Lower cps else unicode cps)"

text \<open>
  \<open>String.prototype.toLowerCase\<close>: the code points of the string, converted, as a string
  again.
\<close>

definition toLowerCase16 :: "(nat list \<Rightarrow> nat list) \<Rightarrow> nat list \<Rightarrow> nat list" where
  "toLowerCase16 unicode s = CodePointsToString (toLowercase unicode (StringToCodePoints s))"

definition trim16 :: "nat list \<Rightarrow> nat list" where
  "trim16 s = rev (dropWhile isWhiteSpace16 (rev (dropWhile isWhiteSpace16 s)))"

section \<open>Entity normalisation (routes/api.js)\<close>

text \<open>
  The character class of \<open>/[\s\-\(\)\+\.]/g\<close>: white space, and the characters
  \<open>-\<close>, \<open>(\<close>, \<open>)\<close>, \<open>+\<close> and \<open>.\<close>. The regular expression has no flag \<open>u\<close>: it
  reads the string code unit by code unit.
\<close>

definition isFormatting :: "nat \<Rightarrow> bool" where
  "isFormatting u =
     (isWhiteSpace16 u \<or> u = of_char CHR ''-'' \<or> u = of_char CHR ''('' \<or> u = of_char CHR '')''
      \<or> u = of_char CHR ''+'' \<or> u = of_char CHR ''.'')"

text \<open>\<open>normalized.replace(/[\s\-\(\)\+\.]/g, '')\<close> deletes every code unit of the class.\<close>

fun stripFormatting :: "nat list \<Rightarrow> nat list" where
  "stripFormatting [] = []"
| "stripFormatting (u # us) = (if isFormatting u then stripFormatting us else u # stripFormatting us)"

definition normalizeEntity :: "(nat list \<Rightarrow> nat list) \<Rightarrow> nat list \<Rightarrow> nat list" where
  "normalizeEntity unicode entity =
     (let normalized = trim16 (toLowerCase16 unicode entity)
      in if includesStr normalized (js ''@'') then normalized
         else stripFormatting normalized)"

section \<open>Content analysis (routes/api.js)\<close>

text \<open>
  The values a caller can pass for \<open>content\<close>. Only the truthiness and the
  \<open>typeof\<close> of a value that is not a string matter to the analyser; a number is
  abstracted to an integer (\<open>NaN\<close> is falsy like \<open>0\<close>).
\<close>

datatype js_value = JSUndefined | JSNull | JSBoolean bool | JSNumber int | JSString string | JSObject

fun truthy :: "js_value \<Rightarrow> bool" where
  "truthy JSUndefined = False"
| "truthy JSNull = False"
| "truthy (JSBoolean b) = b"
| "truthy (JSNumber n) = (n \<noteq> 0)"
| "truthy (JSString s) = (s \<noteq> [])"
| "truthy JSObject = True"

fun typeofJS :: "js_value \<Rightarrow> string" where
  "typeofJS JSUndefined = ''undefined''"
| "typeofJS JSNull = ''object''"
| "typeofJS (JSBoolean b) = ''boolean''"
| "typeofJS (JSNumber n) = ''number''"
| "typeofJS (JSString s) = ''string''"
| "typeofJS JSObject = ''object''"

fun stringOf :: "js_value \<Rightarrow> string" where
  "stringOf (JSString s) = s"
| "stringOf _ = []"

definition urgency :: "string list" where
  "urgency =
    [''urgent'', ''immediately'', ''now'', ''asap'', ''hurry'', ''quickly'', ''fast'',
     ''limited time'', ''act now'', ''don't delay'', ''last chance'', ''expires today'',
     ''deadline'', ''24 hours'', ''within hours'']"

definition financial :: "string list" where
  "financial =
    [''bank account'', ''credit card'', ''debit card'', ''atm'', ''pin'', ''cvv'', ''otp'',
     ''transfer'', ''transaction'', ''payment'', ''loan'', ''emi'', ''upi'', ''neft'', ''rtgs'',
     ''blocked'', ''suspended'', ''verify account'', ''update kyc'', ''kyc expired'',
     ''prize'', ''lottery'', ''jackpot'', ''won'', ''winner'', ''reward'', ''cash prize'',
     ''refund'', ''cashback'', ''bonus'']"

definition threats :: "string list" where
  "threats =
    [''account blocked'', ''account suspended'', ''will be blocked'', ''will be suspended'',
     ''legal action'', ''police'', ''arrest'', ''case filed'', ''complaint'', ''court'',
     ''fine'', ''penalty'', ''closure'', ''terminate'', ''deactivate'', ''seized'']"

definition impersonation :: "string list" where
  "impersonation =
    [''customer care'', ''customer support'', ''helpline'', ''helpdesk'',
     ''rbi'', ''reserve bank'', ''income tax'', ''it department'', ''government'',
     ''sbi'', ''hdfc'', ''icici'', ''axis'', ''bank manager'', ''bank officer'',
     ''amazon'', ''flipkart'', ''paytm'', ''phonepe'', ''gpay'', ''google pay'']"

definition action_requests :: "string list" where
  "action_requests =
    [''click here'', ''click link'', ''tap here'', ''click below'', ''visit'',
     ''call this number'', ''call us'', ''dial'', ''contact immediately'',
     ''share otp'', ''share pin'', ''provide details'', ''verify yourself'',
     ''confirm identity'', ''update details'', ''fill form'', ''download app'',
     ''install'', ''remote access'', ''anydesk'', ''teamviewer'']"

definition suspicious_patterns :: "string list" where
  "suspicious_patterns =
    [''dear customer'', ''dear user'', ''dear valued'', ''respected sir'',
     ''confidential'', ''do not share'', ''keep secret'',
     ''free gift'', ''free offer'', ''get free'', ''100% free'',
     ''guaranteed'', ''no risk'', ''risk free'']"

text \<open>\<open>Object.entries(FRAUD_KEYWORDS)\<close>: the categories in insertion order.\<close>

definition FRAUD_KEYWORDS :: "(string \<times> string list) list" where
  "FRAUD_KEYWORDS =
    [(''urgency'', urgency), (''financial'', financial), (''threats'', threats),
     (''impersonation'', impersonation), (''action_requests'', action_requests),
     (''suspicious_patterns'', suspicious_patterns)]"

text \<open>\<open>weights[category] || 1\<close>: a missing (or zero) weight counts as 1.\<close>

definition getCategoryWeight :: "string \<Rightarrow> nat" where
  "getCategoryWeight category =
     (case map_of [(''urgency'', 1), (''financial'', 2), (''threats'', 3), (''impersonation'', 3),
                   (''action_requests'', 2), (''suspicious_patterns'', 1)] category of
        None \<Rightarrow> 1
      | Some w \<Rightarrow> (if w = 0 then 1 else w))"

text \<open>
  One entry of \<open>findings\<close>. The fields \<open>category\<close>, \<open>matchedKeywords\<close> and
  \<open>score\<close> carry the prefix \<open>f_\<close>, since the report and the results below have
  fields of the same names.
\<close>

record finding =
  f_category :: string
  f_matchedKeywords :: "string list"
  f_score :: nat

text \<open>
  The object the analyser returns; a field that the returned object does not have is
  \<open>None\<close>. \<open>contentScore\<close>, \<open>contentRiskLevel\<close> and \<open>contentRiskMessage\<close> are its
  fields \<open>score\<close>, \<open>riskLevel\<close> and \<open>riskMessage\<close>.
\<close>

record content_result =
  isSuspicious :: bool
  contentScore :: nat
  contentRiskLevel :: "string option"
  contentRiskMessage :: "string option"
  findings :: "finding list"
  analyzedAt :: "int option"

text \<open>\<open>keywords.filter(keyword => lowerContent.includes(keyword.toLowerCase()))\<close>\<close>

definition matchKeywords :: "string \<Rightarrow> string list \<Rightarrow> string list" where
  "matchKeywords lowerContent keywords =
     filter (\<lambda>keyword. includesStr lowerContent (toLowerCase keyword)) keywords"

text \<open>The loop over the categories, with the running \<open>score\<close> and \<open>findings\<close>.\<close>

fun checkCategories ::
  "string \<Rightarrow> (string \<times> string list) list \<Rightarrow> nat \<times> finding list \<Rightarrow> nat \<times> finding list" where
  "checkCategories lowerContent [] (score, fs) = (score, fs)"
| "checkCategories lowerContent ((category, keywords) # rest) (score, fs) =
     (let matchedKeywords = matchKeywords lowerContent keywords
      in if length matchedKeywords > 0
         then (let categoryScore = length matchedKeywords * getCategoryWeight category
               in checkCategories lowerContent rest
                    (score + categoryScore,
                     fs @ [\<lparr>f_category = category, f_matchedKeywords = matchedKeywords,
                             f_score = categoryScore\<rparr>]))
         else checkCategories lowerContent rest (score, fs))"

text \<open>
  The URL patterns carry the flag \<open>i\<close>. Their letters are ASCII, and under \<open>i\<close> (without
  \<open>u\<close>) a code unit from U+0080 on is never identified with an ASCII one, so a pattern
  matches the content exactly when it matches the content with \<open>A..Z\<close> lowered. Each
  regular expression object is created by the call that tests it, so \<open>test\<close> searches from
  the start of the content.
\<close>

definition asciiLower :: "char \<Rightarrow> char" where
  "asciiLower c =
     (let n = (of_char c :: nat) in if 65 \<le> n \<and> n \<le> 90 then char_of (n + 32) else c)"

definition testLiteral :: "string \<Rightarrow> string \<Rightarrow> bool" where
  "testLiteral lit content = includesStr (map asciiLower content) lit"

definition isDigit :: "char \<Rightarrow> bool" where
  "isDigit c = (48 \<le> (of_char c :: nat) \<and> (of_char c :: nat) \<le> 57)"

definition eatLiteral :: "string \<Rightarrow> string \<Rightarrow> string option" where
  "eatLiteral lit s = (if prefix lit s then Some (drop (length lit) s) else None)"

definition eatOptional :: "string \<Rightarrow> string \<Rightarrow> string option" where
  "eatOptional lit s = (case eatLiteral lit s of Some r \<Rightarrow> Some r | None \<Rightarrow> Some s)"

definition eatDigits :: "string \<Rightarrow> string option" where
  "eatDigits s = (case takeWhile isDigit s of [] \<Rightarrow> None | _ \<Rightarrow> Some (dropWhile isDigit s))"

text \<open>
  \<open>/http[s]?:\/\/[0-9]+\.[0-9]+\.[0-9]+\.[0-9]+/gi\<close> at the head of a string. After
  \<open>[s]?\<close> comes \<open>:\<close> and after each \<open>[0-9]+\<close> comes \<open>\.\<close> (or the end of the pattern),
  so giving back an \<open>s\<close> or a digit never turns a failed match into a match: taking the
  optional \<open>s\<close> and the longest run of digits decides the match.
\<close>

definition matchIpUrlHere :: "string \<Rightarrow> bool" where
  "matchIpUrlHere s =
     (eatLiteral ''http'' s \<bind> eatOptional ''s'' \<bind> eatLiteral ''://''
        \<bind> eatDigits \<bind> eatLiteral ''.'' \<bind> eatDigits \<bind> eatLiteral ''.''
        \<bind> eatDigits \<bind> eatLiteral ''.'' \<bind> eatDigits \<noteq> None)"

fun searchIpUrl :: "string \<Rightarrow> bool" where
  "searchIpUrl [] = False"
| "searchIpUrl (c # cs) = (matchIpUrlHere (c # cs) \<or> searchIpUrl cs)"

definition testIpUrl :: "string \<Rightarrow> bool" where
  "testIpUrl content = searchIpUrl (map asciiLower content)"

definition urlPatterns :: "(string \<Rightarrow> bool) list" where
  "urlPatterns =
    [testLiteral ''bit.ly'', testLiteral ''tinyurl'', testLiteral ''goo.gl'', testLiteral ''ow.ly'',
     testLiteral ''t.co'', testLiteral ''shorturl'', testLiteral ''tiny.cc'', testLiteral ''is.gd'',
     testLiteral ''v.gd'', testIpUrl]"

text \<open>The loop over the patterns stops at the first one that matches.\<close>

fun checkUrlPatterns ::
  "(string \<Rightarrow> bool) list \<Rightarrow> string \<Rightarrow> nat \<times> finding list \<Rightarrow> nat \<times> finding list" where
  "checkUrlPatterns [] content (score, fs) = (score, fs)"
| "checkUrlPatterns (pattern # rest) content (score, fs) =
     (if pattern content
      then (score + 3,
            fs @ [\<lparr>f_category = ''suspicious_url'',
                    f_matchedKeywords = [''shortened/suspicious URL detected''], f_score = 3\<rparr>])
      else checkUrlPatterns rest content (score, fs))"

text \<open>\<open>(content.match(/[A-Z]/g) || []).length\<close>\<close>

definition countCaps :: "string \<Rightarrow> nat" where
  "countCaps content =
     length (filter (\<lambda>c. 65 \<le> (of_char c :: nat) \<and> (of_char c :: nat) \<le> 90) content)"

text \<open>
  \<open>capsRatio > 0.5 && content.length > 20\<close>, where \<open>capsRatio\<close> is the quotient of two
  integers below \<open>2^53\<close> in double precision. Rounding is monotone and \<open>0.5\<close> is a double,
  and a quotient above one half exceeds it by at least \<open>1 / (2 * length)\<close>, so the
  comparison holds exactly when twice the count exceeds the length.
\<close>

definition excessiveCaps :: "string \<Rightarrow> bool" where
  "excessiveCaps content = (2 * countCaps content > length content \<and> length content > 20)"

definition checkCaps :: "string \<Rightarrow> nat \<times> finding list \<Rightarrow> nat \<times> finding list" where
  "checkCaps content acc =
     (case acc of (score, fs) \<Rightarrow>
        if excessiveCaps content
        then (score + 2,
              fs @ [\<lparr>f_category = ''excessive_caps'',
                      f_matchedKeywords = [''Excessive use of capital letters''], f_score = 2\<rparr>])
        else (score, fs))"

definition contentRisk :: "nat \<Rightarrow> string \<times> string" where
  "contentRisk score =
     (if score = 0 then (''safe'', ''No suspicious patterns detected in content.'')
      else if score \<le> 5
      then (''low'', ''Some potentially suspicious patterns detected. Be cautious.'')
      else if score \<le> 10
      then (''suspicious'', ''Multiple fraud indicators found. Exercise caution!'')
      else (''high_risk'', ''HIGH RISK - Multiple fraud patterns detected! Likely a scam.''))"

text \<open>The argument \<open>now\<close> is the time that \<open>new Date()\<close> reads.\<close>

definition analyzeContentForFraud :: "int \<Rightarrow> js_value \<Rightarrow> content_result" where
  "analyzeContentForFraud now content =
     (if \<not> truthy content \<or> typeofJS content \<noteq> ''string''
      then \<lparr>isSuspicious = False, contentScore = 0, contentRiskLevel = None,
             contentRiskMessage = None, findings = [], analyzedAt = None\<rparr>
      else
        (let text = stringOf content;
             lowerContent = toLowerCase text;
             (score, fs) =
                checkCaps text
                  (checkUrlPatterns urlPatterns text
                     (checkCategories lowerContent FRAUD_KEYWORDS (0, [])));
             (riskLevel, riskMessage) = contentRisk score
         in \<lparr>isSuspicious = score > 0, contentScore = score, contentRiskLevel = Some riskLevel,
              contentRiskMessage = Some riskMessage, findings = fs, analyzedAt = Some now\<rparr>))"

section \<open>Crowd intelligence: the risk of an entity (routes/api.js)\<close>

text \<open>
  \<open>escapeRegex\<close> puts a backslash (code 0x5C) before each character of its class: white
  space, the backslash, and \<open>- [ ] { } ( ) * + ? . , ^ $ | #\<close>.
\<close>

definition isRegexSpecial :: "nat \<Rightarrow> bool" where
  "isRegexSpecial u = (isWhiteSpace16 u \<or> u = 0x5C \<or> u \<in> set (js ''-[]{}()*+?.,^$|#''))"

fun escapeRegex :: "nat list \<Rightarrow> nat list" where
  "escapeRegex [] = []"
| "escapeRegex (u # us) = (if isRegexSpecial u then 0x5C # u # escapeRegex us else u # escapeRegex us)"

text \<open>
  A fraud report as the engine reads it. \<open>reportTarget\<close> is the field \<open>targetEntity\<close>;
  the mock reports of the demo mode are built without it.
\<close>

record report =
  reportTarget :: "nat list option"
  category :: string
  timestamp :: int
  isActive :: bool

text \<open>
  The state the function shares with the rest of the server: \<open>global.DEMO_MODE\<close> and
  \<open>demoStorage.reports\<close>.
\<close>

record globals =
  DEMO_MODE :: bool
  demoReports :: "report list"

text \<open>
  The report store is outside this program. Its collection is a list of reports, or
  \<open>None\<close> when the store cannot be reached and \<open>FraudReport.find\<close> throws; the query
  \<open>{targetEntity, timestamp: {$gte: thirtyDaysAgo}, isActive: true}\<close> selects by equality
  on the entity, the time bound and the flag.
\<close>

definition FraudReport_find :: "report list option \<Rightarrow> nat list \<Rightarrow> int \<Rightarrow> report list option" where
  "FraudReport_find db entity since =
     map_option
       (filter (\<lambda>r. reportTarget r = Some entity \<and> timestamp r \<ge> since \<and> isActive r)) db"

text \<open>
  The time zone of the server, which is not part of the program: \<open>offsetAtUtc z t\<close> is
  the offset of the local time from UTC, in milliseconds, at the time value \<open>t\<close>
  (ECMAScript \<open>LocalTZA(t, true)\<close>), and \<open>offsetAtLocal z t\<close> the offset that belongs to
  the local time \<open>t\<close> (\<open>LocalTZA(t, false)\<close>).
\<close>

record localZone =
  offsetAtUtc :: "int \<Rightarrow> int"
  offsetAtLocal :: "int \<Rightarrow> int"

definition msPerDay :: int where
  "msPerDay = 24 * 60 * 60 * 1000"

text \<open>
  \<open>thirtyDaysAgo = new Date(); thirtyDaysAgo.setDate(thirtyDaysAgo.getDate() - 30)\<close>.
  \<open>setDate\<close> works on the local time \<open>t\<close> of the date: it keeps the time within the
  day and makes the day from the year, the month and the given day of the month, which
  for the day of \<open>t\<close> less 30 is the day number of \<open>t\<close> less 30 (\<open>MakeDay\<close> counts
  days across the ends of months). The new local time is \<open>t - 30 * msPerDay\<close>, and the
  date holds the time value of that local time, which differs from \<open>now - 30 * msPerDay\<close>
  when the offset of the zone has changed in between.
\<close>

definition thirtyDaysAgo :: "localZone \<Rightarrow> int \<Rightarrow> int" where
  "thirtyDaysAgo zone now =
     (let t = now + offsetAtUtc zone now;
          newDate = t - 30 * msPerDay
      in newDate - offsetAtLocal zone newDate)"

definition demoFraudEntities :: "(nat list \<times> string \<times> nat) list" where
  "demoFraudEntities =
    [(js ''9944084754'', ''Phishing'', 3),
     (js ''fraud@test.com'', ''Identity Theft'', 2),
     (js ''scam@upi'', ''Financial Fraud'', 5),
     (js ''241cb016@srcw.ac.in'', ''Phishing'', 30)]"

text \<open>The reports of the demo mode: the stored ones that match, then the mock ones.\<close>

definition demoModeReports :: "int \<Rightarrow> globals \<Rightarrow> nat list \<Rightarrow> report list" where
  "demoModeReports now g normalizedEntity =
     filter (\<lambda>r. reportTarget r = Some normalizedEntity \<and> isActive r) (demoReports g)
     @ (case map_of demoFraudEntities normalizedEntity of
          None \<Rightarrow> []
        | Some (cat, count) \<Rightarrow>
            replicate count \<lparr>reportTarget = None, category = cat, timestamp = now, isActive = True\<rparr>)"

definition reportScore :: "report \<Rightarrow> nat" where
  "reportScore r =
     (let reportScore = 1
      in if category r = ''Phishing'' \<or> category r = ''Identity Theft'' then reportScore + 2
         else reportScore)"

text \<open>\<open>reports.reduce((acc, report) => acc + reportScore, 0)\<close>\<close>

definition scoreReports :: "report list \<Rightarrow> nat" where
  "scoreReports reports = foldl (\<lambda>acc r. acc + reportScore r) 0 reports"

text \<open>The entry of \<open>riskMapping\<close> for a score: level, colour and message.\<close>

definition riskMapping :: "nat \<Rightarrow> string \<times> string \<times> string" where
  "riskMapping score =
     (if score = 0
      then (''safe'', ''green'', ''Authoritative data indicates no current threat vectors.'')
      else if score \<le> 5
      then (''suspicious'', ''yellow'', ''Trace activity detected. Monitoring protocols active.'')
      else (''high_risk'', ''red'', ''CRITICAL THREAT: Investigative protocols triggered.''))"

record risk_payload =
  schemaVersion :: string
  targetEntity :: "nat list"
  score :: nat
  riskLevel :: string
  riskColor :: string
  riskMessage :: string
  totalReports :: nat
  investigativeProtocols :: "string list"
  checkedAt :: int
  isDemo :: bool

text \<open>The argument of \<open>notificationService.dispatch\<close>, with the user it is for.\<close>

record notification =
  n_userId :: string
  n_type :: string
  n_priority :: string
  n_title :: string
  n_body :: "nat list"
  n_targetChannel :: string

text \<open>
  The part of the function after the reports are known: the payload, and the notification
  when the level is \<open>high_risk\<close> and \<open>userId\<close> is truthy.
\<close>

definition riskResponse ::
  "int \<Rightarrow> globals \<Rightarrow> nat list \<Rightarrow> string list \<Rightarrow> report list \<Rightarrow> string option
     \<Rightarrow> risk_payload \<times> globals \<times> notification option" where
  "riskResponse now g normalizedEntity protocols reports userId =
     (let score = scoreReports reports;
          (level, color, msg) = riskMapping score;
          responsePayload =
            \<lparr>schemaVersion = ''2.0.0'', targetEntity = normalizedEntity, score = score,
             riskLevel = level, riskColor = color, riskMessage = msg,
             totalReports = length reports, investigativeProtocols = protocols,
             checkedAt = now, isDemo = DEMO_MODE g\<rparr>
      in (responsePayload, g,
          (case userId of
             Some u \<Rightarrow>
               if level = ''high_risk'' \<and> u \<noteq> []
               then Some \<lparr>n_userId = u, n_type = ''THREAT_ALERT'', n_priority = ''critical'',
                          n_title = ''High Risk Alert'',
                          n_body =
                            js ''Critical threat detected for entity: '' @ normalizedEntity
                            @ js ''.'',
                          n_targetChannel = ''web_and_sms''\<rparr>
               else None
           | None \<Rightarrow> None)))"

text \<open>
  \<open>calculateFraudRisk\<close>. \<open>zone\<close> is the time zone of the server and \<open>unicode\<close> the
  case conversion of Unicode; \<open>db\<close> is the report store and \<open>cyber\<close> the outcome of
  \<open>CyberCrime.findOne\<close> for a search pattern: the protocols of the document found, or
  \<open>None\<close> when there is none or the lookup throws (both leave \<open>investigativeContext\<close>
  null). When the report store fails, the function sets \<open>DEMO_MODE\<close> and calls itself.
\<close>

function calculateFraudRisk ::
  "int \<Rightarrow> localZone \<Rightarrow> (nat list \<Rightarrow> nat list) \<Rightarrow> report list option
     \<Rightarrow> (nat list \<Rightarrow> string list option) \<Rightarrow> globals \<Rightarrow> nat list \<Rightarrow> string option
     \<Rightarrow> risk_payload \<times> globals \<times> notification option" where
  "calculateFraudRisk now zone unicode db cyber g entity userId =
     (let normalizedEntity = normalizeEntity unicode entity;
          safeSearchPattern = escapeRegex normalizedEntity;
          protocols =
            (if \<not> DEMO_MODE g
             then (case cyber safeSearchPattern of Some ps \<Rightarrow> ps | None \<Rightarrow> [])
             else [])
      in if DEMO_MODE g
         then riskResponse now g normalizedEntity protocols
                (demoModeReports now g normalizedEntity) userId
         else (case FraudReport_find db normalizedEntity (thirtyDaysAgo zone now) of
                 Some reports \<Rightarrow> riskResponse now g normalizedEntity protocols reports userId
               | None \<Rightarrow>
                   calculateFraudRisk now zone unicode db cyber (g\<lparr>DEMO_MODE := True\<rparr>) entity userId))"
  by pat_completeness auto
termination
  by (relation "measure (\<lambda>(now, zone, unicode, db, cyber, g, entity, userId).
                         if DEMO_MODE g then 0 else 1)") auto

section \<open>One-time codes (services/otpService.js)\<close>

definition OTP_CONFIG_length :: nat where "OTP_CONFIG_length = 6"
definition OTP_CONFIG_expiryMinutes :: int where "OTP_CONFIG_expiryMinutes = 10"
definition OTP_CONFIG_maxAttempts :: nat where "OTP_CONFIG_maxAttempts = 3"
definition OTP_CONFIG_cooldownMinutes :: int where "OTP_CONFIG_cooldownMinutes = 1"

text \<open>
  \<open>generateOTP\<close>: one decimal digit for each of the \<open>len\<close> bytes that
  \<open>crypto.randomBytes(len)\<close> returns; \<open>randomBytes i\<close> is the byte at index \<open>i\<close>.
\<close>

definition generateOTP :: "nat \<Rightarrow> (nat \<Rightarrow> nat) \<Rightarrow> string" where
  "generateOTP len randomBytes = map (\<lambda>i. ''0123456789'' ! (randomBytes i mod 10)) [0..<len]"

definition createOTPKey :: "string \<Rightarrow> string \<Rightarrow> string" where
  "createOTPKey identifier purpose = purpose @ '':'' @ trim (toLowerCase identifier)"

record otp_record =
  otp :: string
  createdAt :: int
  expiresAt :: int
  attempts :: nat
  verified :: bool

text \<open>
  The state of the service: the map \<open>otpStore\<close>, and the deletions that \<open>setTimeout\<close>
  has scheduled, each with the time it is due and the key it deletes.
\<close>

record otp_state =
  otpStore :: "string \<rightharpoonup> otp_record"
  timers :: "(int \<times> string) list"

text \<open>
  The object that \<open>generate\<close> and \<open>verify\<close> return; a field the object does not have is
  \<open>None\<close>. \<open>otpCode\<close> and \<open>expiry\<close> are the fields \<open>otp\<close> and \<open>expiresAt\<close> of the
  result. The field \<open>message\<close>, a sentence for the user made of the same values, is left out.
\<close>

record otp_result =
  success :: bool
  error :: "string option"
  waitSeconds :: "int option"
  remainingAttempts :: "int option"
  otpCode :: "string option"
  expiry :: "int option"
  expiresInMinutes :: "int option"

definition otpFailure :: "string \<Rightarrow> otp_result" where
  "otpFailure e =
     \<lparr>success = False, error = Some e, waitSeconds = None, remainingAttempts = None,
      otpCode = None, expiry = None, expiresInMinutes = None\<rparr>"

text \<open>
  \<open>Math.ceil(a / b)\<close> for an integer \<open>a\<close> and a positive integer \<open>b\<close>. The quotient is
  computed in double precision, which is exact enough for the ceiling at the magnitude of
  a difference of two clock readings.
\<close>

definition ceilDiv :: "int \<Rightarrow> int \<Rightarrow> int" where
  "ceilDiv a b = - ((- a) div b)"

text \<open>The argument \<open>now\<close> is the time that \<open>Date.now()\<close> reads, in milliseconds.\<close>

definition generate ::
  "int \<Rightarrow> (nat \<Rightarrow> nat) \<Rightarrow> otp_state \<Rightarrow> string \<Rightarrow> string \<Rightarrow> otp_result \<times> otp_state" where
  "generate now randomBytes st identifier purpose =
     (let key = createOTPKey identifier purpose;
          cooldownMs = OTP_CONFIG_cooldownMinutes * 60 * 1000;
          fresh =
            (let code = generateOTP OTP_CONFIG_length randomBytes;
                 expires = now + OTP_CONFIG_expiryMinutes * 60 * 1000
             in (\<lparr>success = True, error = None, waitSeconds = None, remainingAttempts = None,
                   otpCode = Some code, expiry = Some expires,
                   expiresInMinutes = Some OTP_CONFIG_expiryMinutes\<rparr>,
                 st\<lparr>otpStore := (otpStore st)(key \<mapsto>
                      \<lparr>otp = code, createdAt = now, expiresAt = expires, attempts = 0,
                       verified = False\<rparr>)\<rparr>))
      in case otpStore st key of
           None \<Rightarrow> fresh
         | Some existing \<Rightarrow>
             (let timeSinceCreation = now - createdAt existing
              in if timeSinceCreation < cooldownMs
                 then ((otpFailure ''cooldown'')
                         \<lparr>waitSeconds := Some (ceilDiv (cooldownMs - timeSinceCreation) 1000)\<rparr>, st)
                 else fresh))"

definition verify ::
  "int \<Rightarrow> otp_state \<Rightarrow> string \<Rightarrow> string \<Rightarrow> string \<Rightarrow> otp_result \<times> otp_state" where
  "verify now st identifier inputOTP purpose =
     (let key = createOTPKey identifier purpose
      in case otpStore st key of
           None \<Rightarrow> (otpFailure ''not_found'', st)
         | Some stored \<Rightarrow>
             if verified stored then (otpFailure ''already_used'', st)
             else if now > expiresAt stored
             then (otpFailure ''expired'', st\<lparr>otpStore := (otpStore st)(key := None)\<rparr>)
             else if attempts stored \<ge> OTP_CONFIG_maxAttempts
             then (otpFailure ''max_attempts'', st\<lparr>otpStore := (otpStore st)(key := None)\<rparr>)
             else
               (let stored1 = stored\<lparr>attempts := attempts stored + 1\<rparr>
                in if otp stored1 \<noteq> trim inputOTP
                   then ((otpFailure ''invalid'')
                           \<lparr>remainingAttempts :=
                              Some (int OTP_CONFIG_maxAttempts - int (attempts stored1))\<rparr>,
                         st\<lparr>otpStore := (otpStore st)(key \<mapsto> stored1)\<rparr>)
                   else (\<lparr>success = True, error = None, waitSeconds = None,
                          remainingAttempts = None, otpCode = None, expiry = None,
                          expiresInMinutes = None\<rparr>,
                         st\<lparr>otpStore := (otpStore st)(key \<mapsto> stored1\<lparr>verified := True\<rparr>),
                            timers := timers st @ [(now + 5000, key)]\<rparr>)))"

section \<open>Live connections (services/websocketService.js)\<close>

text \<open>
  \<open>io\<close> says whether the Socket.IO server has been created (\<open>io\<close> is not null), and
  \<open>connectedUsers\<close> is the map from user ids to sets of socket ids. The other two fields
  are the state that Socket.IO keeps: \<open>sockets\<close> maps the id of each connected socket to
  the \<open>userId\<close> its handshake gave it, and \<open>rooms\<close> gives the sockets that have joined
  a room.
\<close>

record ws_state =
  io :: bool
  connectedUsers :: "string \<rightharpoonup> string set"
  sockets :: "string \<rightharpoonup> string"
  rooms :: "string \<Rightarrow> string set"

definition ws_initial :: ws_state where
  "ws_initial = \<lparr>io = False, connectedUsers = Map.empty, sockets = Map.empty, rooms = (\<lambda>r. {})\<rparr>"

text \<open>The handler of \<open>connection\<close>: track the socket, and join the room of the user.\<close>

definition onConnection :: "string \<Rightarrow> string \<Rightarrow> ws_state \<Rightarrow> ws_state" where
  "onConnection userId socketId st =
     (let users1 =
            (if connectedUsers st userId = None then (connectedUsers st)(userId \<mapsto> {})
             else connectedUsers st);
          users2 =
            (case users1 userId of
               None \<Rightarrow> users1
             | Some userSockets \<Rightarrow> users1(userId \<mapsto> insert socketId userSockets));
          room = ''user:'' @ userId
      in st\<lparr>connectedUsers := users2, rooms := (rooms st)(room := insert socketId (rooms st room))\<rparr>)"

text \<open>The handler of \<open>disconnect\<close>, registered by the socket of \<open>userId\<close>.\<close>

definition onDisconnect :: "string \<Rightarrow> string \<Rightarrow> ws_state \<Rightarrow> ws_state" where
  "onDisconnect userId socketId st =
     (case connectedUsers st userId of
        None \<Rightarrow> st
      | Some userSockets \<Rightarrow>
          (let userSockets1 = userSockets - {socketId}
           in if userSockets1 = {}
              then st\<lparr>connectedUsers := (connectedUsers st)(userId := None)\<rparr>
              else st\<lparr>connectedUsers := (connectedUsers st)(userId \<mapsto> userSockets1)\<rparr>))"

text \<open>
  What can happen to the service. \<open>initializeWebSocket\<close> creates the server; Socket.IO
  then calls the connection handler for a socket with a new id, and the disconnect handler
  of a connected socket, once, after the socket has left its rooms. An event that cannot
  happen in the state gives \<open>None\<close>.
\<close>

datatype ws_event = Initialize | Connect string string | Disconnect string

fun ws_step :: "ws_event \<Rightarrow> ws_state \<Rightarrow> ws_state option" where
  "ws_step Initialize st = (if io st then None else Some (st\<lparr>io := True\<rparr>))"
| "ws_step (Connect userId socketId) st =
     (if io st \<and> sockets st socketId = None
      then Some (onConnection userId socketId (st\<lparr>sockets := (sockets st)(socketId \<mapsto> userId)\<rparr>))
      else None)"
| "ws_step (Disconnect socketId) st =
     (case sockets st socketId of
        None \<Rightarrow> None
      | Some userId \<Rightarrow>
          Some (onDisconnect userId socketId
                  (st\<lparr>sockets := (sockets st)(socketId := None),
                      rooms := (\<lambda>r. rooms st r - {socketId})\<rparr>)))"

fun ws_run :: "ws_event list \<Rightarrow> ws_state \<Rightarrow> ws_state option" where
  "ws_run [] st = Some st"
| "ws_run (e # es) st = (case ws_step e st of None \<Rightarrow> None | Some st1 \<Rightarrow> ws_run es st1)"

definition isUserConnected :: "ws_state \<Rightarrow> string \<Rightarrow> bool" where
  "isUserConnected st userId =
     (case connectedUsers st userId of None \<Rightarrow> False | Some userSockets \<Rightarrow> userSockets \<noteq> {})"

text \<open>
  \<open>sendAlert\<close> returns its boolean, and emits \<open>alert:new\<close> to the room of the user: the
  second component is the set of sockets that receive the event, each with the alert it
  carries (the payload is a copy of the fields of \<open>alertData\<close>).
\<close>

definition sendAlert :: "ws_state \<Rightarrow> string \<Rightarrow> 'a \<Rightarrow> bool \<times> (string \<times> 'a) set" where
  "sendAlert st userId alertData =
     (if \<not> io st then (False, {})
      else (True, (\<lambda>socketId. (socketId, alertData)) ` rooms st (''user:'' @ userId)))"

section \<open>Notions of the claims\<close>


text \<open>The score that the three checks of the analyser give a string.\<close>

definition textScore :: "string \<Rightarrow> nat" where
  "textScore content =
     fst (checkCaps content
            (checkUrlPatterns urlPatterns content
               (checkCategories (toLowerCase content) FRAUD_KEYWORDS (0, []))))"

text \<open>
  The open channels of a user: the connected sockets whose handshake carried the id of
  the user.
\<close>

definition openChannels :: "ws_state \<Rightarrow> string \<Rightarrow> string set" where
  "openChannels st userId = {socketId. sockets st socketId = Some userId}"

text \<open>
  The registry and the rooms agree with the connected sockets: a user has an entry
  exactly when it has an open channel, the entry is the set of its open channels, and a
  room holds the open channels of the user it is named after.
\<close>

definition registryConsistent :: "ws_state \<Rightarrow> bool" where
  "registryConsistent st =
     ((\<forall>u. connectedUsers st u = (if openChannels st u = {} then None else Some (openChannels st u)))
      \<and> (\<forall>r. rooms st r = {s. \<exists>u. sockets st s = Some u \<and> r = ''user:'' @ u}))"

text \<open>
  A Unicode scalar value: a code point that is not a surrogate. The strings without a
  surrogate that lacks its partner are the strings \<open>CodePointsToString cps\<close> of the
  sequences \<open>cps\<close> of scalar values.
\<close>

definition isScalarValue :: "nat \<Rightarrow> bool" where
  "isScalarValue c = (c < 0xD800 \<or> (0xE000 \<le> c \<and> c < 0x110000))"

text \<open>A list without the elements at its end that satisfy a predicate.\<close>

definition dropEnd :: "('a \<Rightarrow> bool) \<Rightarrow> 'a list \<Rightarrow> 'a list" where
  "dropEnd P s = rev (dropWhile P (rev s))"

section \<open>Sample inputs\<close>

definition sampleServerIdle :: ws_state where
  "sampleServerIdle =
     \<lparr>io = True, connectedUsers = Map.empty, sockets = Map.empty, rooms = (\<lambda>r. {})\<rparr>"

text \<open>
  A case conversion that agrees with Unicode on the code points below U+0100 and on the
  Deseret capitals U+10400..U+10427, whose small letters are \<open>0x28\<close> further on.
\<close>

definition sampleLowerCodePoint :: "nat \<Rightarrow> nat" where
  "sampleLowerCodePoint c = (if 0x10400 \<le> c \<and> c \<le> 0x10427 then c + 0x28 else latin1Lower c)"

definition sampleUnicode :: "nat list \<Rightarrow> nat list" where
  "sampleUnicode cps = map sampleLowerCodePoint cps"

text \<open>A server on UTC.\<close>

definition sampleUtcZone :: localZone where
  "sampleUtcZone = \<lparr>offsetAtUtc = (\<lambda>t. 0), offsetAtLocal = (\<lambda>t. 0)\<rparr>"

text \<open>
  A server on the Eastern time of the United States around the end of daylight saving on
  1 November 2026, 06:00 UTC: four hours behind UTC before it, five hours after it.
\<close>

definition sampleEasternZone :: localZone where
  "sampleEasternZone =
     \<lparr>offsetAtUtc = (\<lambda>t. if t < 1793512800000 then - 14400000 else - 18000000),
      offsetAtLocal = (\<lambda>t. if t < 1793498400000 then - 14400000 else - 18000000)\<rparr>"

definition sampleGlobals :: globals where
  "sampleGlobals = \<lparr>DEMO_MODE = False, demoReports = []\<rparr>"

definition samplePhishingReport :: report where
  "samplePhishingReport =
     \<lparr>reportTarget = Some (js ''9876543210''), category = ''Phishing'', timestamp = 5000000000,
      isActive = True\<rparr>"

text \<open>A report of 4 October 2026, 11:00 UTC (07:00 Eastern daylight time).\<close>

definition sampleOctoberReport :: report where
  "sampleOctoberReport =
     \<lparr>reportTarget = Some (js ''9876543210''), category = ''Investment Scam'',
      timestamp = 1791111600000, isActive = True\<rparr>"

definition sampleOtpState :: otp_state where
  "sampleOtpState =
     snd (generate 1000 (\<lambda>i. i) \<lparr>otpStore = Map.empty, timers = []\<rparr> ''User@Example.com'' ''login'')"

definition sampleOtpRecord :: otp_record where
  "sampleOtpRecord =
     \<lparr>otp = ''012345'', createdAt = 1000, expiresAt = 601000, attempts = 0, verified = False\<rparr>"

definition sampleOtpAfterThree :: otp_state where
  "sampleOtpAfterThree =
     snd (verify 4000
       (snd (verify 3000 (snd (verify 2000 sampleOtpState ''user@example.com'' ''999999'' ''login''))
          ''user@example.com'' ''999999'' ''login''))
       ''user@example.com'' ''999999'' ''login'')"


section \<open>Properties of the string built-ins\<close>

lemma includesStr_single: "includesStr s [c] = (c \<in> set s)"
  by (induction s) auto

lemma stripFormatting_filter: "stripFormatting s = filter (\<lambda>u. \<not> isFormatting u) s"
  by (induction s) auto

lemma isWhiteSpace16_bmp: "isWhiteSpace16 u \<Longrightarrow> u \<le> 0xFFFF \<and> \<not> isHighSurrogate u \<and> \<not> isLowSurrogate u"
  by (auto simp: isWhiteSpace16_def isHighSurrogate_def isLowSurrogate_def)

lemma isFormatting_bmp: "isFormatting u \<Longrightarrow> u \<le> 0xFFFF \<and> \<not> isHighSurrogate u \<and> \<not> isLowSurrogate u"
  using isWhiteSpace16_bmp [of u]
  by (auto simp: isFormatting_def isHighSurrogate_def isLowSurrogate_def)

lemma encode_bmp: "c \<le> 0xFFFF \<Longrightarrow> UTF16EncodeCodePoint c = [c]"
  by (simp add: UTF16EncodeCodePoint_def)

lemma encode_supplementary:
  assumes "isScalarValue c" and "\<not> c \<le> 0xFFFF"
  shows "\<exists>h l. UTF16EncodeCodePoint c = [h, l] \<and> isHighSurrogate h \<and> isLowSurrogate l
            \<and> 0x10000 + (h - 0xD800) * 0x400 + (l - 0xDC00) = c"
proof -
  let ?d = "c - 0x10000"
  have d: "?d < 0x100000" using assms by (simp add: isScalarValue_def)
  then have "?d div 0x400 < 0x400" by simp
  moreover have "?d mod 0x400 < 0x400" by simp
  moreover have "?d div 0x400 * 0x400 + ?d mod 0x400 = ?d" by simp
  ultimately show ?thesis using assms
    by (simp add: UTF16EncodeCodePoint_def isHighSurrogate_def isLowSurrogate_def)
qed

lemma CodePointsToString_Cons:
  "CodePointsToString (c # cs) = UTF16EncodeCodePoint c @ CodePointsToString cs"
  by (simp add: CodePointsToString_def)

lemma CodePointsToString_append:
  "CodePointsToString (xs @ ys) = CodePointsToString xs @ CodePointsToString ys"
  by (simp add: CodePointsToString_def)

lemma StringToCodePoints_Cons:
  "\<not> isHighSurrogate u \<Longrightarrow> StringToCodePoints (u # us) = u # StringToCodePoints us"
  by (cases us) simp_all

lemma decode_encode:
  "list_all isScalarValue cps \<Longrightarrow> StringToCodePoints (CodePointsToString cps) = cps"
proof (induction cps)
  case Nil
  then show ?case by (simp add: CodePointsToString_def)
next
  case (Cons c cs)
  then have c: "isScalarValue c" and ih: "StringToCodePoints (CodePointsToString cs) = cs" by simp_all
  show ?case
  proof (cases "c \<le> 0xFFFF")
    case True
    then have "\<not> isHighSurrogate c" using c by (auto simp: isScalarValue_def isHighSurrogate_def)
    with True ih show ?thesis
      by (simp add: CodePointsToString_Cons encode_bmp StringToCodePoints_Cons)
  next
    case False
    from encode_supplementary [OF c False] obtain h l where
      "UTF16EncodeCodePoint c = [h, l]" "isHighSurrogate h" "isLowSurrogate l"
      "0x10000 + (h - 0xD800) * 0x400 + (l - 0xDC00) = c" by blast
    with ih show ?thesis by (simp add: CodePointsToString_Cons)
  qed
qed

lemma set_encode_bmp:
  assumes "list_all isScalarValue cps" and "u \<le> 0xFFFF" and "\<not> isHighSurrogate u" and "\<not> isLowSurrogate u"
  shows "u \<in> set (CodePointsToString cps) \<longleftrightarrow> u \<in> set cps"
  using assms(1)
proof (induction cps)
  case Nil
  then show ?case by (simp add: CodePointsToString_def)
next
  case (Cons c cs)
  then have c: "isScalarValue c" and ih: "u \<in> set (CodePointsToString cs) \<longleftrightarrow> u \<in> set cs" by simp_all
  show ?case
  proof (cases "c \<le> 0xFFFF")
    case True
    with ih show ?thesis by (simp add: CodePointsToString_Cons encode_bmp)
  next
    case False
    from encode_supplementary [OF c False] obtain h l where
      "UTF16EncodeCodePoint c = [h, l]" "isHighSurrogate h" "isLowSurrogate l" by blast
    with ih assms(2-4) False show ?thesis by (auto simp: CodePointsToString_Cons)
  qed
qed

lemma filter_encode:
  assumes "list_all isScalarValue cps"
    and "\<And>u. \<not> P u \<Longrightarrow> u \<le> 0xFFFF \<and> \<not> isHighSurrogate u \<and> \<not> isLowSurrogate u"
  shows "filter P (CodePointsToString cps) = CodePointsToString (filter P cps)"
  using assms(1)
proof (induction cps)
  case Nil
  then show ?case by (simp add: CodePointsToString_def)
next
  case (Cons c cs)
  then have c: "isScalarValue c"
    and ih: "filter P (CodePointsToString cs) = CodePointsToString (filter P cs)" by simp_all
  show ?case
  proof (cases "c \<le> 0xFFFF")
    case True
    with ih show ?thesis by (simp add: CodePointsToString_Cons encode_bmp)
  next
    case False
    from encode_supplementary [OF c False] obtain h l where
      e: "UTF16EncodeCodePoint c = [h, l]" "isHighSurrogate h" "isLowSurrogate l" by blast
    then have "P h" "P l" "P c" using assms(2) [of h] assms(2) [of l] assms(2) [of c] False by auto
    with ih e show ?thesis by (simp add: CodePointsToString_Cons)
  qed
qed

lemma dropWhile_encode:
  assumes "list_all isScalarValue cps"
    and "\<And>u. P u \<Longrightarrow> u \<le> 0xFFFF \<and> \<not> isHighSurrogate u \<and> \<not> isLowSurrogate u"
  shows "dropWhile P (CodePointsToString cps) = CodePointsToString (dropWhile P cps)"
  using assms(1)
proof (induction cps)
  case Nil
  then show ?case by (simp add: CodePointsToString_def)
next
  case (Cons c cs)
  then have c: "isScalarValue c"
    and ih: "dropWhile P (CodePointsToString cs) = CodePointsToString (dropWhile P cs)" by simp_all
  show ?case
  proof (cases "c \<le> 0xFFFF")
    case True
    with ih show ?thesis by (simp add: CodePointsToString_Cons encode_bmp)
  next
    case False
    from encode_supplementary [OF c False] obtain h l where
      e: "UTF16EncodeCodePoint c = [h, l]" "isHighSurrogate h" "isLowSurrogate l" by blast
    then have "\<not> P h" "\<not> P c" using assms(2) [of h] assms(2) [of c] False by auto
    with e show ?thesis by (simp add: CodePointsToString_Cons)
  qed
qed

lemma dropEnd_snoc: "dropEnd P (xs @ [x]) = (if P x then dropEnd P xs else xs @ [x])"
  by (simp add: dropEnd_def)

lemma dropEnd_snoc2: "\<not> P y \<Longrightarrow> dropEnd P (xs @ [x, y]) = xs @ [x, y]"
  by (simp add: dropEnd_def)

lemma dropEnd_encode:
  assumes "list_all isScalarValue cps"
    and "\<And>u. P u \<Longrightarrow> u \<le> 0xFFFF \<and> \<not> isHighSurrogate u \<and> \<not> isLowSurrogate u"
  shows "dropEnd P (CodePointsToString cps) = CodePointsToString (dropEnd P cps)"
  using assms(1)
proof (induction cps rule: rev_induct)
  case Nil
  then show ?case by (simp add: CodePointsToString_def dropEnd_def)
next
  case (snoc c cs)
  then have c: "isScalarValue c"
    and ih: "dropEnd P (CodePointsToString cs) = CodePointsToString (dropEnd P cs)" by simp_all
  show ?case
  proof (cases "c \<le> 0xFFFF")
    case True
    with ih show ?thesis
      by (simp add: CodePointsToString_append CodePointsToString_Cons encode_bmp dropEnd_snoc
          CodePointsToString_def [of "[]"])
  next
    case False
    from encode_supplementary [OF c False] obtain h l where
      e: "UTF16EncodeCodePoint c = [h, l]" "isHighSurrogate h" "isLowSurrogate l" by blast
    then have "\<not> P l" "\<not> P c" using assms(2) [of l] assms(2) [of c] False by auto
    with e show ?thesis
      by (simp add: CodePointsToString_append CodePointsToString_Cons dropEnd_snoc dropEnd_snoc2
          CodePointsToString_def [of "[]"])
  qed
qed

lemma trim16_dropEnd: "trim16 s = dropEnd isWhiteSpace16 (dropWhile isWhiteSpace16 s)"
  by (simp add: trim16_def dropEnd_def)

lemma set_dropEnd: "set (dropEnd P s) \<subseteq> set s"
  unfolding dropEnd_def by (metis set_rev set_dropWhileD subsetI)

lemma set_trim16: "set (trim16 s) \<subseteq> set s"
  unfolding trim16_dropEnd using set_dropEnd [of isWhiteSpace16 "dropWhile isWhiteSpace16 s"]
  by (auto dest: set_dropWhileD)

lemma list_all_subset: "set xs \<subseteq> set ys \<Longrightarrow> list_all P ys \<Longrightarrow> list_all P xs"
  by (auto simp: list_all_iff)

lemma trim16_encode:
  assumes "list_all isScalarValue cps"
  shows "trim16 (CodePointsToString cps) = CodePointsToString (trim16 cps)"
proof -
  have s: "list_all isScalarValue (dropWhile isWhiteSpace16 cps)"
    using assms by (auto simp: list_all_iff dest: set_dropWhileD)
  show ?thesis
    unfolding trim16_dropEnd
    by (simp add: dropWhile_encode [OF assms isWhiteSpace16_bmp] dropEnd_encode [OF s isWhiteSpace16_bmp])
qed

lemma dropWhile_hd: "xs \<noteq> [] \<Longrightarrow> \<not> P (hd xs) \<Longrightarrow> dropWhile P xs = xs"
  by (cases xs) auto

lemma trim16_no_ends:
  assumes "s = [] \<or> (\<not> isWhiteSpace16 (hd s) \<and> \<not> isWhiteSpace16 (last s))"
  shows "trim16 s = s"
proof (cases s)
  case Nil
  then show ?thesis by (simp add: trim16_def)
next
  case (Cons c cs)
  with assms have h: "\<not> isWhiteSpace16 c" and l: "\<not> isWhiteSpace16 (last s)" by auto
  have "dropWhile isWhiteSpace16 s = s" using Cons h by simp
  moreover have "dropWhile isWhiteSpace16 (rev s) = rev s"
  proof (rule dropWhile_hd)
    show "rev s \<noteq> []" using Cons by simp
    show "\<not> isWhiteSpace16 (hd (rev s))" using l by (simp add: hd_rev)
  qed
  ultimately show ?thesis by (simp add: trim16_def)
qed

lemma trim16_ends:
  "trim16 s = [] \<or> (\<not> isWhiteSpace16 (hd (trim16 s)) \<and> \<not> isWhiteSpace16 (last (trim16 s)))"
proof (cases "trim16 s = []")
  case True
  then show ?thesis by simp
next
  case False
  define d where "d = dropWhile isWhiteSpace16 s"
  define e where "e = dropWhile isWhiteSpace16 (rev d)"
  have t: "trim16 s = rev e" by (simp add: trim16_def d_def e_def)
  with False have e: "e \<noteq> []" by simp
  then have he: "\<not> isWhiteSpace16 (hd e)" unfolding e_def by (rule hd_dropWhile)
  from e have d: "d \<noteq> []" by (auto simp: e_def)
  then have hd: "\<not> isWhiteSpace16 (hd d)" unfolding d_def by (rule hd_dropWhile)
  have "last e = last (rev d)" using e unfolding e_def
    by (metis last_appendR takeWhile_dropWhile_id)
  then have "last e = hd d" using d by (simp add: last_rev)
  with hd he e show ?thesis by (simp add: t hd_rev last_rev)
qed

lemma trim16_idem: "trim16 (trim16 s) = trim16 s"
  by (rule trim16_no_ends) (rule trim16_ends)

lemma trim16_no_space: "\<forall>c \<in> set s. \<not> isWhiteSpace16 c \<Longrightarrow> trim16 s = s"
  by (rule trim16_no_ends) (cases s, auto)

section \<open>Entity normalisation: the claims\<close>

lemma normalizeEntity_rule:
  "normalizeEntity unicode x =
     (if 0x40 \<in> set (trim16 (toLowerCase16 unicode x)) then trim16 (toLowerCase16 unicode x)
      else filter (\<lambda>u. \<not> isFormatting u) (trim16 (toLowerCase16 unicode x)))"
  by (simp add: normalizeEntity_def js_def includesStr_single stripFormatting_filter)

lemma toLowercase_sample: "toLowercase sampleUnicode cps = map sampleLowerCodePoint cps"
  by (auto simp: toLowercase_def sampleUnicode_def sampleLowerCodePoint_def list_all_iff)

lemma sampleLowerCodePoint_idem: "sampleLowerCodePoint (sampleLowerCodePoint c) = sampleLowerCodePoint c"
  by (auto simp: sampleLowerCodePoint_def latin1Lower_def)

lemma sampleLowerCodePoint_scalar: "isScalarValue c \<Longrightarrow> isScalarValue (sampleLowerCodePoint c)"
  by (auto simp: sampleLowerCodePoint_def latin1Lower_def isScalarValue_def)

lemma sampleUnicode_stable:
  "\<forall>ys zs. set zs \<subseteq> set (toLowercase sampleUnicode ys) \<longrightarrow> toLowercase sampleUnicode zs = zs"
proof (intro allI impI)
  fix ys zs assume "set zs \<subseteq> set (toLowercase sampleUnicode ys)"
  then have "\<forall>z \<in> set zs. sampleLowerCodePoint z = z"
    by (auto simp: toLowercase_sample sampleLowerCodePoint_idem)
  then show "toLowercase sampleUnicode zs = zs"
    by (simp add: toLowercase_sample map_idI)
qed

lemma sampleUnicode_closed:
  "\<forall>ys. list_all isScalarValue ys \<longrightarrow> list_all isScalarValue (toLowercase sampleUnicode ys)"
  by (auto simp: toLowercase_sample list_all_iff sampleLowerCodePoint_scalar)

lemma normalizeEntity_sample_number:
  "normalizeEntity unicode (js '' +91 98765-43210 '') = js ''919876543210''"
  by (simp add: normalizeEntity_def js_def trim16_def toLowerCase16_def toLowercase_def
      latin1Lower_def CodePointsToString_def UTF16EncodeCodePoint_def isWhiteSpace16_def
      isFormatting_def isHighSurrogate_def isLowSurrogate_def)

lemma normalizeEntity_sample_plain:
  "normalizeEntity unicode (js ''919876543210'') = js ''919876543210''"
  "normalizeEntity unicode (js ''9876543210'') = js ''9876543210''"
  by (simp_all add: normalizeEntity_def js_def trim16_def toLowerCase16_def toLowercase_def
      latin1Lower_def CodePointsToString_def UTF16EncodeCodePoint_def isWhiteSpace16_def
      isFormatting_def isHighSurrogate_def isLowSurrogate_def)

text \<open>
  Claim C6, as the code has it. The normaliser deletes the formatting characters of
  \<open>" +91 98765-43210 "\<close> and keeps every digit, those of the country code too: the key is
  \<open>"919876543210"\<close>, the key of \<open>"919876543210"\<close>, while the key of \<open>"9876543210"\<close> is
  \<open>"9876543210"\<close>.
\<close>

theorem normalizeEntity_keeps_country_code:
  "normalizeEntity unicode (js '' +91 98765-43210 '') = js ''919876543210''
   \<and> normalizeEntity unicode (js '' +91 98765-43210 '') = normalizeEntity unicode (js ''919876543210'')
   \<and> normalizeEntity unicode (js ''9876543210'') = js ''9876543210''"
  by (simp add: normalizeEntity_sample_number normalizeEntity_sample_plain)

text \<open>
  Claim C6 as stated fails: the keys of \<open>" +91 98765-43210 "\<close> and of \<open>"9876543210"\<close>
  differ.
\<close>

theorem normalizeEntity_country_code_counterexample:
  "normalizeEntity sampleUnicode (js '' +91 98765-43210 '')
     \<noteq> normalizeEntity sampleUnicode (js ''9876543210'')"
  by (simp add: normalizeEntity_sample_number normalizeEntity_sample_plain) (simp add: js_def)

lemma normalizeEntity_scalar_twice:
  assumes scalar: "list_all isScalarValue cps"
    and stable: "\<forall>ys zs. set zs \<subseteq> set (toLowercase unicode ys) \<longrightarrow> toLowercase unicode zs = zs"
    and closed: "\<forall>ys. list_all isScalarValue ys \<longrightarrow> list_all isScalarValue (toLowercase unicode ys)"
    and x: "x = CodePointsToString cps"
  shows "normalizeEntity unicode (normalizeEntity unicode x) = normalizeEntity unicode x"
proof -
  define m where "m = toLowercase unicode cps"
  define n where "n = trim16 m"
  define r where "r = filter (\<lambda>u. \<not> isFormatting u) n"
  have sm: "list_all isScalarValue m" using closed scalar by (simp add: m_def)
  have nm: "set n \<subseteq> set m" unfolding n_def by (rule set_trim16)
  have rn: "set r \<subseteq> set n" by (auto simp: r_def)
  have sn: "list_all isScalarValue n" using nm sm by (rule list_all_subset)
  have sr: "list_all isScalarValue r" using rn sn by (rule list_all_subset)
  have lower: "toLowerCase16 unicode (CodePointsToString zs) = CodePointsToString zs"
    if "set zs \<subseteq> set m" for zs
  proof -
    have "list_all isScalarValue zs" using that sm by (rule list_all_subset)
    moreover have "toLowercase unicode zs = zs" using stable that by (simp add: m_def)
    ultimately show ?thesis by (simp add: toLowerCase16_def decode_encode)
  qed
  have at: "0x40 \<in> set (CodePointsToString zs) \<longleftrightarrow> 0x40 \<in> set zs"
    if "list_all isScalarValue zs" for zs
    using that by (rule set_encode_bmp) (simp_all add: isHighSurrogate_def isLowSurrogate_def)
  have strip: "filter (\<lambda>u. \<not> isFormatting u) (CodePointsToString zs) =
      CodePointsToString (filter (\<lambda>u. \<not> isFormatting u) zs)"
    if "list_all isScalarValue zs" for zs
    using that by (rule filter_encode) (use isFormatting_bmp in blast)
  have tx: "trim16 (toLowerCase16 unicode x) = CodePointsToString n"
    by (simp add: x toLowerCase16_def decode_encode [OF scalar] m_def [symmetric]
        trim16_encode [OF sm] n_def)
  have nx: "normalizeEntity unicode x = (if 0x40 \<in> set n then CodePointsToString n else CodePointsToString r)"
    by (simp add: normalizeEntity_rule tx at [OF sn] strip [OF sn] r_def)
  have idem: "normalizeEntity unicode (normalizeEntity unicode x) = normalizeEntity unicode x"
  proof (cases "0x40 \<in> set n")
    case True
    have tn: "trim16 n = n" by (simp add: n_def trim16_idem)
    have "trim16 (toLowerCase16 unicode (CodePointsToString n)) = trim16 (CodePointsToString n)"
      by (simp only: lower [OF nm])
    also have "\<dots> = CodePointsToString n"
      by (simp only: trim16_encode [OF sn] tn)
    finally have "trim16 (toLowerCase16 unicode (CodePointsToString n)) = CodePointsToString n" .
    then have "normalizeEntity unicode (CodePointsToString n) = CodePointsToString n"
      using True by (simp add: normalizeEntity_rule at [OF sn])
    with True show ?thesis by (simp add: nx)
  next
    case False
    have nf: "\<forall>u \<in> set r. \<not> isFormatting u" by (simp add: r_def)
    then have "\<forall>u \<in> set r. \<not> isWhiteSpace16 u" by (auto simp: isFormatting_def)
    then have tr: "trim16 r = r" by (rule trim16_no_space)
    have rm: "set r \<subseteq> set m" using rn nm by blast
    have "trim16 (toLowerCase16 unicode (CodePointsToString r)) = trim16 (CodePointsToString r)"
      by (simp only: lower [OF rm])
    also have "\<dots> = CodePointsToString r"
      by (simp only: trim16_encode [OF sr] tr)
    finally have "trim16 (toLowerCase16 unicode (CodePointsToString r)) = CodePointsToString r" .
    moreover have "0x40 \<notin> set r" using False rn by blast
    moreover have "filter (\<lambda>u. \<not> isFormatting u) r = r" using nf by simp
    ultimately have "normalizeEntity unicode (CodePointsToString r) = CodePointsToString r"
      by (simp add: normalizeEntity_rule at [OF sr] strip [OF sr])
    with False show ?thesis by (simp add: nx)
  qed
  show ?thesis by (rule idem)
qed

lemma latin1_StringToCodePoints:
  "list_all (\<lambda>u. u < 0x100) y \<Longrightarrow> StringToCodePoints y = y"
  by (induction y) (simp_all add: StringToCodePoints_Cons isHighSurrogate_def)

lemma latin1_CodePointsToString:
  "list_all (\<lambda>u. u < 0x100) y \<Longrightarrow> CodePointsToString y = y"
  by (induction y) (simp_all add: CodePointsToString_def UTF16EncodeCodePoint_def)

lemma latin1_toLowerCase16:
  assumes "list_all (\<lambda>u. u < 0x100) y"
  shows "toLowerCase16 unicode y = map latin1Lower y"
proof -
  have "list_all (\<lambda>u. u < 0x100) (map latin1Lower y)"
    using assms by (auto simp: list_all_iff latin1Lower_def)
  then show ?thesis
    using assms
    by (simp add: toLowerCase16_def toLowercase_def latin1_StringToCodePoints
        latin1_CodePointsToString)
qed

text \<open>
  On the strings of code units below \<open>0x100\<close>, where the case conversion is the one
  written out above, the normaliser is idempotent whatever Unicode does elsewhere.
\<close>

lemma normalizeEntity_latin1_twice:
  assumes "list_all (\<lambda>u. u < 0x100) x"
  shows "normalizeEntity unicode (normalizeEntity unicode x) = normalizeEntity unicode x"
proof -
  have same: "normalizeEntity unicode y = normalizeEntity sampleUnicode y"
    if "list_all (\<lambda>u. u < 0x100) y" for y
    using that by (simp add: normalizeEntity_def latin1_toLowerCase16)
  have "set (normalizeEntity unicode x) \<subseteq> set (map latin1Lower x)"
    using set_trim16 [of "map latin1Lower x"]
    by (auto simp: normalizeEntity_rule latin1_toLowerCase16 [OF assms])
  then have l: "list_all (\<lambda>u. u < 0x100) (normalizeEntity unicode x)"
    using assms by (auto simp: list_all_iff latin1Lower_def)
  have sc: "list_all isScalarValue x"
    using assms by (auto simp: list_all_iff isScalarValue_def)
  have "normalizeEntity sampleUnicode (normalizeEntity sampleUnicode x) = normalizeEntity sampleUnicode x"
    using sc sampleUnicode_stable sampleUnicode_closed latin1_CodePointsToString [OF assms, symmetric]
    by (rule normalizeEntity_scalar_twice)
  then show ?thesis
    using same [OF assms] same [OF l] by simp
qed

text \<open>
  Claim C7, as the code has it. For every string \<open>x\<close> without a surrogate that lacks its
  partner, which is the string of a sequence of Unicode scalar values, the normaliser is
  idempotent: \<open>normalize(normalize(x)) == normalize(x)\<close>. It returns the trimmed,
  lower-cased input when that contains \<open>@\<close> (the code unit \<open>0x40\<close>), and otherwise deletes
  from the trimmed, lower-cased input the white space and the characters \<open>- ( ) + .\<close>
  The case conversion of Unicode is a parameter; what the theorem uses of it holds of
  Unicode: a text made of code points of a lower-cased text is left as it is, and a text
  of scalar values is converted to one.
\<close>

theorem normalizeEntity_idempotent_wellformed:
  assumes scalar: "list_all isScalarValue cps"
    and stable: "\<forall>ys zs. set zs \<subseteq> set (toLowercase unicode ys) \<longrightarrow> toLowercase unicode zs = zs"
    and closed: "\<forall>ys. list_all isScalarValue ys \<longrightarrow> list_all isScalarValue (toLowercase unicode ys)"
    and x: "x = CodePointsToString cps"
  shows "normalizeEntity unicode (normalizeEntity unicode x) = normalizeEntity unicode x
    \<and> normalizeEntity unicode x =
        (if 0x40 \<in> set (trim16 (toLowerCase16 unicode x)) then trim16 (toLowerCase16 unicode x)
         else filter (\<lambda>u. \<not> isFormatting u) (trim16 (toLowerCase16 unicode x)))"
  using normalizeEntity_scalar_twice [OF assms] normalizeEntity_rule [of unicode x]
  by (simp only:)

text \<open>
  Claim C7 as stated fails. The high surrogate \<open>0xD801\<close>, a space and the low surrogate
  \<open>0xDC00\<close> are normalised to the pair of the Deseret capital U+10400, which a second
  pass lowers to the pair of U+10428. And the normaliser deletes a tab, which is not
  among the characters that the claim names.
\<close>

theorem normalizeEntity_idempotent_counterexample:
  "normalizeEntity sampleUnicode (normalizeEntity sampleUnicode [0xD801, 0x20, 0xDC00])
     \<noteq> normalizeEntity sampleUnicode [0xD801, 0x20, 0xDC00]
   \<and> normalizeEntity sampleUnicode [0xD801, 0x20, 0xDC00] = [0xD801, 0xDC00]
   \<and> normalizeEntity sampleUnicode [0xD801, 0xDC00] = [0xD801, 0xDC28]
   \<and> normalizeEntity sampleUnicode [0x61, 0x9, 0x62] = [0x61, 0x62]"
  by (simp add: normalizeEntity_def js_def trim16_def toLowerCase16_def toLowercase_def
      latin1Lower_def CodePointsToString_def UTF16EncodeCodePoint_def isWhiteSpace16_def
      isFormatting_def isHighSurrogate_def isLowSurrogate_def sampleUnicode_def sampleLowerCodePoint_def)

text \<open>
  Claim C7 as amended at an input: the string of a space, the Deseret capital U+10400, a
  hyphen, \<open>A\<close> and a space is normalised to the pair of U+10428 and \<open>a\<close>, and a second
  pass leaves that as it is.
\<close>

theorem normalizeEntity_idempotent_wellformed_witness:
  "normalizeEntity sampleUnicode
       (normalizeEntity sampleUnicode (CodePointsToString [0x20, 0x10400, 0x2D, 0x41, 0x20]))
     = normalizeEntity sampleUnicode (CodePointsToString [0x20, 0x10400, 0x2D, 0x41, 0x20])
   \<and> normalizeEntity sampleUnicode (CodePointsToString [0x20, 0x10400, 0x2D, 0x41, 0x20])
     = [0xD801, 0xDC28, 0x61]"
proof -
  have s: "list_all isScalarValue [0x20, 0x10400, 0x2D, 0x41, 0x20]"
    by (simp add: isScalarValue_def)
  have v: "normalizeEntity sampleUnicode (CodePointsToString [0x20, 0x10400, 0x2D, 0x41, 0x20])
      = [0xD801, 0xDC28, 0x61]"
    by (simp add: normalizeEntity_def js_def trim16_def toLowerCase16_def toLowercase_def
      latin1Lower_def CodePointsToString_def UTF16EncodeCodePoint_def isWhiteSpace16_def
      isFormatting_def isHighSurrogate_def isLowSurrogate_def sampleUnicode_def sampleLowerCodePoint_def)
  from normalizeEntity_idempotent_wellformed [OF s sampleUnicode_stable sampleUnicode_closed refl]
  have "normalizeEntity sampleUnicode
       (normalizeEntity sampleUnicode (CodePointsToString [0x20, 0x10400, 0x2D, 0x41, 0x20]))
     = normalizeEntity sampleUnicode (CodePointsToString [0x20, 0x10400, 0x2D, 0x41, 0x20])"
    by (rule conjunct1)
  then show ?thesis using v by blast
qed

section \<open>The risk of an entity: the claims\<close>

declare calculateFraudRisk.simps [simp del]

lemma foldl_reportScore:
  "foldl (\<lambda>acc r. acc + reportScore r) a reports = a + sum_list (map reportScore reports)"
  by (induction reports arbitrary: a) auto

lemma scoreReports_sum_list: "scoreReports reports = sum_list (map reportScore reports)"
  by (simp add: scoreReports_def foldl_reportScore)

lemma scoreReports_sum:
  "scoreReports reports =
     (\<Sum>r\<leftarrow>reports. 1 + (if category r = ''Phishing'' \<or> category r = ''Identity Theft'' then 2 else 0))"
proof -
  have "reportScore = (\<lambda>r. 1 + (if category r = ''Phishing'' \<or> category r = ''Identity Theft'' then 2 else 0))"
    by (rule ext) (simp add: reportScore_def)
  then show ?thesis by (simp add: scoreReports_def foldl_reportScore)
qed

lemma scoreReports_zero: "scoreReports reports = 0 \<longleftrightarrow> reports = []"
  by (cases reports) (simp_all add: scoreReports_sum_list reportScore_def)

lemma riskMapping_level:
  "(fst (riskMapping s) = ''safe'' \<longleftrightarrow> s = 0)
   \<and> (fst (riskMapping s) = ''suspicious'' \<longleftrightarrow> 1 \<le> s \<and> s \<le> 5)
   \<and> (fst (riskMapping s) = ''high_risk'' \<longleftrightarrow> s > 5)"
  by (auto simp: riskMapping_def)

lemma riskResponse_payload:
  "score (fst (riskResponse now g e ps reports u)) = scoreReports reports
   \<and> riskLevel (fst (riskResponse now g e ps reports u)) = fst (riskMapping (scoreReports reports))
   \<and> totalReports (fst (riskResponse now g e ps reports u)) = length reports
   \<and> isDemo (fst (riskResponse now g e ps reports u)) = DEMO_MODE g
   \<and> targetEntity (fst (riskResponse now g e ps reports u)) = e
   \<and> fst (snd (riskResponse now g e ps reports u)) = g"
  by (simp add: riskResponse_def Let_def split: prod.splits)

lemma calculateFraudRisk_found:
  assumes "\<not> DEMO_MODE g"
    and "FraudReport_find db (normalizeEntity unicode entity) (thirtyDaysAgo zone now) = Some reports"
  shows "calculateFraudRisk now zone unicode db cyber g entity userId =
     riskResponse now g (normalizeEntity unicode entity)
       (case cyber (escapeRegex (normalizeEntity unicode entity)) of Some ps \<Rightarrow> ps | None \<Rightarrow> [])
       reports userId"
  using assms by (subst calculateFraudRisk.simps) (simp add: Let_def)

lemma calculateFraudRisk_demo:
  assumes "DEMO_MODE g"
  shows "calculateFraudRisk now zone unicode db cyber g entity userId =
     riskResponse now g (normalizeEntity unicode entity) []
       (demoModeReports now g (normalizeEntity unicode entity)) userId"
  using assms by (subst calculateFraudRisk.simps) (simp add: Let_def)

lemma calculateFraudRisk_failed:
  assumes "\<not> DEMO_MODE g" and "db = None"
  shows "calculateFraudRisk now zone unicode db cyber g entity userId =
     riskResponse now (g\<lparr>DEMO_MODE := True\<rparr>) (normalizeEntity unicode entity) []
       (demoModeReports now g (normalizeEntity unicode entity)) userId"
proof -
  have "calculateFraudRisk now zone unicode db cyber g entity userId =
        calculateFraudRisk now zone unicode db cyber (g\<lparr>DEMO_MODE := True\<rparr>) entity userId"
    using assms by (subst calculateFraudRisk.simps) (simp add: Let_def FraudReport_find_def)
  also have "\<dots> = riskResponse now (g\<lparr>DEMO_MODE := True\<rparr>) (normalizeEntity unicode entity) []
       (demoModeReports now (g\<lparr>DEMO_MODE := True\<rparr>) (normalizeEntity unicode entity)) userId"
    by (rule calculateFraudRisk_demo) simp
  finally show ?thesis by (simp add: demoModeReports_def)
qed

text \<open>
  Claim C1. When the report store answers, \<open>reports\<close> are the active reports of the last
  thirty days for the normalised entity. The score of the result is the sum over them of
  one point, plus two when the category is \<open>Phishing\<close> or \<open>Identity Theft\<close>; the level
  is \<open>safe\<close> exactly for the score 0, \<open>suspicious\<close> exactly for the scores 1 to 5 and
  \<open>high_risk\<close> exactly for the scores above 5; and \<open>totalReports\<close> is the number of
  the reports, not the score.
\<close>

theorem calculateFraudRisk_score:
  assumes "\<not> DEMO_MODE g" and "db = Some stored"
    and "reports = filter (\<lambda>r. reportTarget r = Some (normalizeEntity unicode entity)
                               \<and> timestamp r \<ge> thirtyDaysAgo zone now \<and> isActive r) stored"
    and "p = fst (calculateFraudRisk now zone unicode db cyber g entity userId)"
  shows "score p = (\<Sum>r\<leftarrow>reports. 1 + (if category r = ''Phishing'' \<or> category r = ''Identity Theft'' then 2 else 0))
    \<and> (riskLevel p = ''safe'' \<longleftrightarrow> score p = 0)
    \<and> (riskLevel p = ''suspicious'' \<longleftrightarrow> 1 \<le> score p \<and> score p \<le> 5)
    \<and> (riskLevel p = ''high_risk'' \<longleftrightarrow> score p > 5)
    \<and> totalReports p = length reports"
proof -
  have "FraudReport_find db (normalizeEntity unicode entity) (thirtyDaysAgo zone now) = Some reports"
    using assms(2,3) by (simp add: FraudReport_find_def)
  with assms(1) have "p = fst (riskResponse now g (normalizeEntity unicode entity)
       (case cyber (escapeRegex (normalizeEntity unicode entity)) of Some ps \<Rightarrow> ps | None \<Rightarrow> [])
       reports userId)"
    by (simp add: assms(4) calculateFraudRisk_found)
  then have "score p = scoreReports reports"
    and "riskLevel p = fst (riskMapping (scoreReports reports))"
    and "totalReports p = length reports"
    by (simp_all add: riskResponse_payload)
  then show ?thesis
    using riskMapping_level [of "scoreReports reports"] scoreReports_sum [of reports]
    by (simp only:)
qed

text \<open>
  Claim C1 at two inputs. Three reports of the category \<open>Phishing\<close> give the score 9,
  the level \<open>high_risk\<close> and three reports. On a server on Eastern time, on 3 November
  2026 at 07:00 (12:00 UTC), the window begins on 4 October at 07:00 daylight time
  (11:00 UTC), an hour more than thirty days back, and a report of that moment counts:
  score 1, level \<open>suspicious\<close>, one report.
\<close>

theorem calculateFraudRisk_score_witness:
  "score (fst (calculateFraudRisk 5000000000 sampleUtcZone sampleUnicode (Some [samplePhishingReport, samplePhishingReport, samplePhishingReport]) (\<lambda>p. None)
        sampleGlobals (js ''98765-43210'') None)) = 9
   \<and> riskLevel (fst (calculateFraudRisk 5000000000 sampleUtcZone sampleUnicode (Some [samplePhishingReport, samplePhishingReport, samplePhishingReport]) (\<lambda>p. None)
        sampleGlobals (js ''98765-43210'') None)) = ''high_risk''
   \<and> totalReports (fst (calculateFraudRisk 5000000000 sampleUtcZone sampleUnicode (Some [samplePhishingReport, samplePhishingReport, samplePhishingReport]) (\<lambda>p. None)
        sampleGlobals (js ''98765-43210'') None)) = 3
   \<and> thirtyDaysAgo sampleEasternZone 1793707200000 = 1791111600000
   \<and> score (fst (calculateFraudRisk 1793707200000 sampleEasternZone sampleUnicode (Some [sampleOctoberReport]) (\<lambda>p. None)
        sampleGlobals (js ''98765-43210'') None)) = 1
   \<and> riskLevel (fst (calculateFraudRisk 1793707200000 sampleEasternZone sampleUnicode (Some [sampleOctoberReport]) (\<lambda>p. None)
        sampleGlobals (js ''98765-43210'') None)) = ''suspicious''
   \<and> totalReports (fst (calculateFraudRisk 1793707200000 sampleEasternZone sampleUnicode (Some [sampleOctoberReport]) (\<lambda>p. None)
        sampleGlobals (js ''98765-43210'') None)) = 1"
proof -
  have n: "normalizeEntity sampleUnicode (js ''98765-43210'') = js ''9876543210''"
    by (simp add: normalizeEntity_def js_def trim16_def toLowerCase16_def toLowercase_def
      latin1Lower_def CodePointsToString_def UTF16EncodeCodePoint_def isWhiteSpace16_def
      isFormatting_def isHighSurrogate_def isLowSurrogate_def)
  have t: "thirtyDaysAgo sampleEasternZone 1793707200000 = 1791111600000"
    by (simp add: thirtyDaysAgo_def sampleEasternZone_def msPerDay_def Let_def)
  have g: "\<not> DEMO_MODE sampleGlobals" by (simp add: sampleGlobals_def)
  have a: "[samplePhishingReport, samplePhishingReport, samplePhishingReport] =
      filter (\<lambda>r. reportTarget r = Some (normalizeEntity sampleUnicode (js ''98765-43210''))
                 \<and> timestamp r \<ge> thirtyDaysAgo sampleUtcZone 5000000000 \<and> isActive r)
        [samplePhishingReport, samplePhishingReport, samplePhishingReport]"
    by (simp add: n samplePhishingReport_def thirtyDaysAgo_def sampleUtcZone_def msPerDay_def Let_def)
  have b: "[sampleOctoberReport] =
      filter (\<lambda>r. reportTarget r = Some (normalizeEntity sampleUnicode (js ''98765-43210''))
                 \<and> timestamp r \<ge> thirtyDaysAgo sampleEasternZone 1793707200000 \<and> isActive r)
        [sampleOctoberReport]"
    by (simp add: n t sampleOctoberReport_def)
  from calculateFraudRisk_score [OF g refl a refl] calculateFraudRisk_score [OF g refl b refl] t
  show ?thesis
    by (simp add: samplePhishingReport_def sampleOctoberReport_def)
qed

text \<open>
  Claim C3, as the code has it. When the lookup in the report store fails, the function
  does not fail: it sets \<open>DEMO_MODE\<close> and answers from the reports of the demo mode, which
  are the active reports of \<open>demoStorage\<close> for the normalised entity followed by the mock
  reports of the four demo entities. Score and \<open>totalReports\<close> are those of these reports,
  and the answer is the one for no reports (score 0, \<open>safe\<close>, no reports) exactly when
  there are none of them.
\<close>

theorem calculateFraudRisk_store_failure:
  assumes "\<not> DEMO_MODE g" and "db = None"
    and "res = calculateFraudRisk now zone unicode db cyber g entity userId"
    and "reports = demoModeReports now g (normalizeEntity unicode entity)"
  shows "score (fst res) = (\<Sum>r\<leftarrow>reports. 1 + (if category r = ''Phishing'' \<or> category r = ''Identity Theft'' then 2 else 0))
    \<and> totalReports (fst res) = length reports
    \<and> isDemo (fst res) \<and> DEMO_MODE (fst (snd res))
    \<and> ((score (fst res) = 0 \<and> riskLevel (fst res) = ''safe'' \<and> totalReports (fst res) = 0)
          \<longleftrightarrow> reports = [])"
proof -
  have res: "res = riskResponse now (g\<lparr>DEMO_MODE := True\<rparr>) (normalizeEntity unicode entity) [] reports userId"
    using assms by (simp add: calculateFraudRisk_failed)
  have "score (fst res) = scoreReports reports"
    and "riskLevel (fst res) = fst (riskMapping (scoreReports reports))"
    and "totalReports (fst res) = length reports"
    and "isDemo (fst res)" and "DEMO_MODE (fst (snd res))"
    by (simp_all add: res riskResponse_payload)
  then show ?thesis
    using riskMapping_level [of "scoreReports reports"] scoreReports_sum [of reports]
      scoreReports_zero [of reports]
    by (simp only:) auto
qed

text \<open>
  Claim C3 as stated fails: with the report store down and an empty \<open>demoStorage\<close>, the
  entity \<open>9944084754\<close> gets the score 9, the level \<open>high_risk\<close> and three reports.
\<close>

theorem calculateFraudRisk_store_failure_counterexample:
  "score (fst (calculateFraudRisk 0 sampleUtcZone sampleUnicode None (\<lambda>p. None)
        sampleGlobals (js ''9944084754'') None)) = 9
   \<and> riskLevel (fst (calculateFraudRisk 0 sampleUtcZone sampleUnicode None (\<lambda>p. None)
        sampleGlobals (js ''9944084754'') None)) = ''high_risk''
   \<and> totalReports (fst (calculateFraudRisk 0 sampleUtcZone sampleUnicode None (\<lambda>p. None)
        sampleGlobals (js ''9944084754'') None)) = 3"
proof -
  have n: "normalizeEntity sampleUnicode (js ''9944084754'') = js ''9944084754''"
    by (simp add: normalizeEntity_def js_def trim16_def toLowerCase16_def toLowercase_def
      latin1Lower_def CodePointsToString_def UTF16EncodeCodePoint_def isWhiteSpace16_def
      isFormatting_def isHighSurrogate_def isLowSurrogate_def)
  have r: "demoModeReports 0 sampleGlobals (js ''9944084754'') =
      replicate 3 \<lparr>reportTarget = None, category = ''Phishing'', timestamp = 0, isActive = True\<rparr>"
    by (simp add: demoModeReports_def demoFraudEntities_def sampleGlobals_def)
  have g: "\<not> DEMO_MODE sampleGlobals" by (simp add: sampleGlobals_def)
  show ?thesis
    by (simp add: calculateFraudRisk_failed [OF g refl] riskResponse_payload n r
        scoreReports_sum_list reportScore_def riskMapping_def sum_list_replicate)
qed

text \<open>
  Claim C3 as amended at an input: an entity without reports of the demo mode gets the
  score 0, the level \<open>safe\<close> and no reports.
\<close>

theorem calculateFraudRisk_store_failure_witness:
  "score (fst (calculateFraudRisk 0 sampleUtcZone sampleUnicode None (\<lambda>p. None)
        sampleGlobals (js ''+1 (555) 000'') None)) = 0
   \<and> riskLevel (fst (calculateFraudRisk 0 sampleUtcZone sampleUnicode None (\<lambda>p. None)
        sampleGlobals (js ''+1 (555) 000'') None)) = ''safe''
   \<and> totalReports (fst (calculateFraudRisk 0 sampleUtcZone sampleUnicode None (\<lambda>p. None)
        sampleGlobals (js ''+1 (555) 000'') None)) = 0"
proof -
  have n: "normalizeEntity sampleUnicode (js ''+1 (555) 000'') = js ''1555000''"
    by (simp add: normalizeEntity_def js_def trim16_def toLowerCase16_def toLowercase_def
      latin1Lower_def CodePointsToString_def UTF16EncodeCodePoint_def isWhiteSpace16_def
      isFormatting_def isHighSurrogate_def isLowSurrogate_def)
  have r: "demoModeReports 0 sampleGlobals (js ''1555000'') = []"
    by (simp add: demoModeReports_def demoFraudEntities_def sampleGlobals_def js_def)
  have g: "\<not> DEMO_MODE sampleGlobals" by (simp add: sampleGlobals_def)
  from calculateFraudRisk_store_failure [OF g refl refl refl, of 0 sampleUtcZone sampleUnicode
      "\<lambda>p. None" "js ''+1 (555) 000''" None]
  show ?thesis
    by (simp add: n r)
qed

section \<open>One-time codes: the claims\<close>

lemma verify_absent:
  "otpStore st (createOTPKey identifier purpose) = None \<Longrightarrow>
   verify now st identifier code purpose = (otpFailure ''not_found'', st)"
  by (simp add: verify_def)

lemma verify_wrong:
  assumes "otpStore st (createOTPKey identifier purpose) = Some stored"
    and "\<not> verified stored" and "now \<le> expiresAt stored"
    and "attempts stored < OTP_CONFIG_maxAttempts" and "trim code \<noteq> otp stored"
  shows "verify now st identifier code purpose =
     ((otpFailure ''invalid'')
        \<lparr>remainingAttempts := Some (int OTP_CONFIG_maxAttempts - int (attempts stored) - 1)\<rparr>,
      st\<lparr>otpStore := (otpStore st)(createOTPKey identifier purpose \<mapsto>
            stored\<lparr>attempts := attempts stored + 1\<rparr>)\<rparr>)"
  using assms by (auto simp: verify_def Let_def)

lemma verify_exhausted:
  assumes "otpStore st (createOTPKey identifier purpose) = Some stored"
    and "\<not> verified stored" and "now \<le> expiresAt stored"
    and "attempts stored \<ge> OTP_CONFIG_maxAttempts"
  shows "verify now st identifier code purpose =
     (otpFailure ''max_attempts'',
      st\<lparr>otpStore := (otpStore st)(createOTPKey identifier purpose := None)\<rparr>)"
  using assms by (auto simp: verify_def Let_def)

lemma ceilDiv_ceiling: "ceilDiv a b = \<lceil>real_of_int a / real_of_int b\<rceil>"
proof -
  have "\<lceil>real_of_int a / real_of_int b\<rceil> = - \<lfloor>real_of_int (- a) / real_of_int b\<rfloor>"
    by (simp add: ceiling_def)
  also have "\<dots> = - ((- a) div b)"
    by (simp only: floor_divide_of_int_eq)
  finally show ?thesis by (simp add: ceilDiv_def)
qed

lemma generate_success:
  assumes "generate now rnd st identifier purpose = (r, st1)" and "success r"
  shows "\<exists>stored. otpStore st1 (createOTPKey identifier purpose) = Some stored \<and> createdAt stored = now"
  using assms
  by (auto simp: generate_def Let_def otpFailure_def split: option.splits if_splits)

lemma generate_within_cooldown:
  assumes "otpStore st (createOTPKey identifier purpose) = Some stored"
    and "now - createdAt stored < 60000"
  shows "generate now rnd st identifier purpose =
     ((otpFailure ''cooldown'')
        \<lparr>waitSeconds := Some (ceilDiv (60000 - (now - createdAt stored)) 1000)\<rparr>, st)"
  using assms by (simp add: generate_def Let_def OTP_CONFIG_cooldownMinutes_def)

lemma sampleOtpKey: "createOTPKey ''user@example.com'' ''login'' = ''login:user@example.com''"
  by (simp add: createOTPKey_def trim_def toLowerCase_def toLowerChar_def isWhiteSpace_def)
lemma sampleOtpKey_mixed: "createOTPKey ''User@Example.com'' ''login'' = ''login:user@example.com''"
  by code_simp
lemma trim_sample_code: "trim ''999999'' = ''999999''"
  by (simp add: trim_def isWhiteSpace_def)
lemma sampleOtpState_eq: "sampleOtpState = \<lparr>otpStore = [''login:user@example.com'' \<mapsto>
     \<lparr>otp = ''012345'', createdAt = 1000, expiresAt = 601000, attempts = 0, verified = False\<rparr>], timers = []\<rparr>"
  by (simp add: sampleOtpState_def generate_def sampleOtpKey_mixed Let_def generateOTP_def OTP_CONFIG_length_def
     OTP_CONFIG_expiryMinutes_def upt_rec [of _ "numeral n" for n] upt_rec [of _ "Suc n" for n])

text \<open>
  Claim C2, as the code has it. For a new, unexpired record (\<open>maxAttempts\<close> is 3), three
  consecutive calls of \<open>verify\<close> with wrong codes each fail with \<open>invalid\<close>, with 2, 1 and
  0 attempts remaining, and leave the record in the store with three attempts. It is the
  fourth call that deletes the record, and it fails with \<open>max_attempts\<close>; the call after
  it fails with \<open>not_found\<close>.
\<close>

theorem verify_three_wrong_codes:
  assumes stored: "otpStore st (createOTPKey ident purpose) = Some stored"
      "attempts stored = 0" "\<not> verified stored"
    and wrong: "trim c1 \<noteq> otp stored" "trim c2 \<noteq> otp stored" "trim c3 \<noteq> otp stored"
    and times: "t1 \<le> expiresAt stored" "t2 \<le> expiresAt stored" "t3 \<le> expiresAt stored"
      "t4 \<le> expiresAt stored"
    and calls: "verify t1 st ident c1 purpose = (r1, s1)"
      "verify t2 s1 ident c2 purpose = (r2, s2)"
      "verify t3 s2 ident c3 purpose = (r3, s3)"
      "verify t4 s3 ident c4 purpose = (r4, s4)"
      "verify t5 s4 ident c5 purpose = (r5, s5)"
  shows "error r1 = Some ''invalid'' \<and> remainingAttempts r1 = Some 2
    \<and> error r2 = Some ''invalid'' \<and> remainingAttempts r2 = Some 1
    \<and> error r3 = Some ''invalid'' \<and> remainingAttempts r3 = Some 0
    \<and> otpStore s3 (createOTPKey ident purpose) = Some (stored\<lparr>attempts := 3\<rparr>)
    \<and> error r4 = Some ''max_attempts''
    \<and> otpStore s4 (createOTPKey ident purpose) = None
    \<and> error r5 = Some ''not_found''"
proof -
  let ?k = "createOTPKey ident purpose"
  have 1: "r1 = (otpFailure ''invalid'')\<lparr>remainingAttempts := Some 2\<rparr>"
    "s1 = st\<lparr>otpStore := (otpStore st)(?k \<mapsto> stored\<lparr>attempts := 1\<rparr>)\<rparr>"
    using verify_wrong [OF stored(1) stored(3) times(1) _ wrong(1)] calls(1) stored(2)
    by (simp_all add: OTP_CONFIG_maxAttempts_def)
  have k1: "otpStore s1 ?k = Some (stored\<lparr>attempts := 1\<rparr>)" by (simp add: 1)
  have 2: "r2 = (otpFailure ''invalid'')\<lparr>remainingAttempts := Some 1\<rparr>"
    "s2 = s1\<lparr>otpStore := (otpStore s1)(?k \<mapsto> stored\<lparr>attempts := 2\<rparr>)\<rparr>"
    using verify_wrong [OF k1, of t2 c2] calls(2) stored(3) times(2) wrong(2)
    by (simp_all add: OTP_CONFIG_maxAttempts_def eval_nat_numeral)
  have k2: "otpStore s2 ?k = Some (stored\<lparr>attempts := 2\<rparr>)" by (simp add: 2)
  have 3: "r3 = (otpFailure ''invalid'')\<lparr>remainingAttempts := Some 0\<rparr>"
    "s3 = s2\<lparr>otpStore := (otpStore s2)(?k \<mapsto> stored\<lparr>attempts := 3\<rparr>)\<rparr>"
    using verify_wrong [OF k2, of t3 c3] calls(3) stored(3) times(3) wrong(3)
    by (simp_all add: OTP_CONFIG_maxAttempts_def eval_nat_numeral)
  have k3: "otpStore s3 ?k = Some (stored\<lparr>attempts := 3\<rparr>)" by (simp add: 3)
  have 4: "r4 = otpFailure ''max_attempts''" "s4 = s3\<lparr>otpStore := (otpStore s3)(?k := None)\<rparr>"
    using verify_exhausted [OF k3, of t4 c4] calls(4) stored(3) times(4)
    by (simp_all add: OTP_CONFIG_maxAttempts_def)
  have k4: "otpStore s4 ?k = None" by (simp add: 4)
  have 5: "r5 = otpFailure ''not_found''"
    using verify_absent [OF k4, of t5 c5] calls(5) by simp
  show ?thesis using k3 k4 by (simp add: 1 2 3 4 5 otpFailure_def)
qed

text \<open>
  Claim C2 as stated fails: after a code was generated and three wrong codes were
  presented, the record is still in the store, and the fourth call returns
  \<open>max_attempts\<close>, not \<open>not_found\<close>.
\<close>

theorem verify_three_wrong_codes_counterexample:
  "otpStore sampleOtpAfterThree (createOTPKey ''user@example.com'' ''login'') \<noteq> None
   \<and> error (fst (verify 5000 sampleOtpAfterThree ''user@example.com'' ''999999'' ''login''))
       = Some ''max_attempts''"
  by (simp add: sampleOtpAfterThree_def sampleOtpState_eq verify_def sampleOtpKey trim_sample_code Let_def OTP_CONFIG_maxAttempts_def otpFailure_def)

text \<open>
  Claim C2 as amended at an input: the fourth call returns \<open>max_attempts\<close> and the fifth,
  which presents the right code, \<open>not_found\<close>.
\<close>

theorem verify_three_wrong_codes_witness:
  "error (fst (verify 5000 sampleOtpAfterThree ''user@example.com'' ''999999'' ''login''))
       = Some ''max_attempts''
   \<and> error (fst (verify 6000
          (snd (verify 5000 sampleOtpAfterThree ''user@example.com'' ''999999'' ''login''))
          ''user@example.com'' ''012345'' ''login'')) = Some ''not_found''"
  using verify_three_wrong_codes [where st = sampleOtpState and ident = "''user@example.com''"
      and purpose = "''login''" and stored = sampleOtpRecord
      and ?c1.0 = "''999999''" and ?c2.0 = "''999999''" and ?c3.0 = "''999999''"
      and ?c4.0 = "''999999''" and ?c5.0 = "''012345''"
      and ?t1.0 = 2000 and ?t2.0 = 3000 and ?t3.0 = 4000 and ?t4.0 = 5000 and ?t5.0 = 6000,
      OF _ _ _ _ _ _ _ _ _ _ surjective_pairing surjective_pairing surjective_pairing
        surjective_pairing surjective_pairing]
  by (simp add: sampleOtpState_eq sampleOtpKey trim_sample_code sampleOtpRecord_def sampleOtpAfterThree_def)

text \<open>
  Claim C8. When \<open>generate\<close> has succeeded at the time \<open>t1\<close> and is called again for the
  same key at a time \<open>t2\<close> less than 60 seconds after \<open>t1\<close>, the second call fails with
  \<open>success: false\<close> and the error \<open>cooldown\<close>; its \<open>waitSeconds\<close> is the rest of the
  60 seconds in seconds, rounded up, which is more than 0; and the state, the stored record
  with it, is as it was.
\<close>

theorem generate_cooldown:
  assumes "generate t1 rnd1 st ident purpose = (r1, st1)" and "success r1"
    and "t2 - t1 < 60000"
    and "createOTPKey ident2 purpose2 = createOTPKey ident purpose"
    and "generate t2 rnd2 st1 ident2 purpose2 = (r2, st2)"
  shows "success r2 = False \<and> error r2 = Some ''cooldown''
    \<and> waitSeconds r2 = Some \<lceil>real_of_int (60000 - (t2 - t1)) / 1000\<rceil>
    \<and> \<lceil>real_of_int (60000 - (t2 - t1)) / 1000\<rceil> > 0
    \<and> st2 = st1"
proof -
  from generate_success [OF assms(1,2)] obtain stored
    where s: "otpStore st1 (createOTPKey ident purpose) = Some stored" "createdAt stored = t1"
    by blast
  have "generate t2 rnd2 st1 ident2 purpose2 =
     ((otpFailure ''cooldown'')\<lparr>waitSeconds := Some (ceilDiv (60000 - (t2 - t1)) 1000)\<rparr>, st1)"
    using generate_within_cooldown [of st1 ident2 purpose2 stored t2 rnd2] assms(3,4) s by simp
  with assms(5) have r2: "r2 = (otpFailure ''cooldown'')\<lparr>waitSeconds := Some (ceilDiv (60000 - (t2 - t1)) 1000)\<rparr>"
    and st2: "st2 = st1" by simp_all
  have c: "ceilDiv (60000 - (t2 - t1)) 1000 = \<lceil>real_of_int (60000 - (t2 - t1)) / 1000\<rceil>"
    using ceilDiv_ceiling [of "60000 - (t2 - t1)" 1000] by simp
  have "real_of_int (60000 - (t2 - t1)) / 1000 > 0" using assms(3) by simp
  then have "\<lceil>real_of_int (60000 - (t2 - t1)) / 1000\<rceil> > 0" by (simp only: ceiling_less_iff zero_less_ceiling)
  then show ?thesis by (simp add: r2 st2 c otpFailure_def)
qed

text \<open>
  Claim C8 at an input: thirty seconds after a code was generated, a second call for the
  same key is told to wait 30 seconds.
\<close>

theorem generate_cooldown_witness:
  "error (fst (generate 31000 (\<lambda>i. 7) sampleOtpState ''user@example.com'' ''login'')) = Some ''cooldown''
   \<and> waitSeconds (fst (generate 31000 (\<lambda>i. 7) sampleOtpState ''user@example.com'' ''login'')) = Some 30
   \<and> snd (generate 31000 (\<lambda>i. 7) sampleOtpState ''user@example.com'' ''login'') = sampleOtpState"
proof -
  let ?first = "generate 1000 (\<lambda>i. i) \<lparr>otpStore = Map.empty, timers = []\<rparr> ''User@Example.com'' ''login''"
  have g: "?first = (fst ?first, sampleOtpState)"
    by (simp add: sampleOtpState_def)
  have s: "success (fst ?first)"
    by (simp add: generate_def Let_def)
  from generate_cooldown [OF g s _ _ surjective_pairing, of 31000 "''user@example.com''" "''login''" "\<lambda>i. 7"]
  show ?thesis
    by (simp add: sampleOtpKey sampleOtpKey_mixed)
qed

section \<open>Live connections: the claims\<close>

lemma registryConsistent_initial: "registryConsistent ws_initial"
  by (simp add: registryConsistent_def ws_initial_def openChannels_def)

lemma registryConsistent_connect:
  assumes "registryConsistent st" and "sockets st s = None"
  shows "registryConsistent (onConnection u s (st\<lparr>sockets := (sockets st)(s \<mapsto> u)\<rparr>))"
proof -
  have o: "\<And>v. openChannels (st\<lparr>sockets := (sockets st)(s \<mapsto> u)\<rparr>) v =
      (if v = u then insert s (openChannels st u) else openChannels st v)"
    using assms(2) by (auto simp: openChannels_def)
  have c: "\<And>v. connectedUsers st v = (if openChannels st v = {} then None else Some (openChannels st v))"
    and r: "\<And>r. rooms st r = {s. \<exists>u. sockets st s = Some u \<and> r = ''user:'' @ u}"
    using assms(1) by (simp_all add: registryConsistent_def)
  show ?thesis
    unfolding registryConsistent_def
  proof (intro conjI allI)
    fix v
    show "connectedUsers (onConnection u s (st\<lparr>sockets := (sockets st)(s \<mapsto> u)\<rparr>)) v =
      (if openChannels (onConnection u s (st\<lparr>sockets := (sockets st)(s \<mapsto> u)\<rparr>)) v = {} then None
       else Some (openChannels (onConnection u s (st\<lparr>sockets := (sockets st)(s \<mapsto> u)\<rparr>)) v))"
      using o [of v] c [of v] c [of u]
      by (auto simp: onConnection_def Let_def openChannels_def)
  next
    fix q
    show "rooms (onConnection u s (st\<lparr>sockets := (sockets st)(s \<mapsto> u)\<rparr>)) q =
      {s'. \<exists>u'. sockets (onConnection u s (st\<lparr>sockets := (sockets st)(s \<mapsto> u)\<rparr>)) s' = Some u' \<and> q = ''user:'' @ u'}"
      using r [of q] assms(2)
      by (auto simp: onConnection_def Let_def)
  qed
qed

lemma registryConsistent_disconnect:
  assumes "registryConsistent st" and "sockets st s = Some u"
  shows "registryConsistent (onDisconnect u s
           (st\<lparr>sockets := (sockets st)(s := None), rooms := (\<lambda>r. rooms st r - {s})\<rparr>))"
proof -
  have c: "\<And>v. connectedUsers st v = (if openChannels st v = {} then None else Some (openChannels st v))"
    and r: "\<And>r. rooms st r = {s. \<exists>u. sockets st s = Some u \<and> r = ''user:'' @ u}"
    using assms(1) by (simp_all add: registryConsistent_def)
  have su: "s \<in> openChannels st u" using assms(2) by (simp add: openChannels_def)
  show ?thesis
    unfolding registryConsistent_def
  proof (intro conjI allI)
    fix v
    let ?st = "onDisconnect u s (st\<lparr>sockets := (sockets st)(s := None), rooms := (\<lambda>r. rooms st r - {s})\<rparr>)"
    have o: "openChannels ?st v = openChannels st v - {s}"
      by (auto simp: onDisconnect_def Let_def openChannels_def split: option.splits)
    have ov: "v \<noteq> u \<Longrightarrow> s \<notin> openChannels st v" using assms(2) by (simp add: openChannels_def)
    show "connectedUsers ?st v = (if openChannels ?st v = {} then None else Some (openChannels ?st v))"
      unfolding o using c [of v] c [of u] su ov
      by (auto simp: onDisconnect_def Let_def split: option.splits)
  next
    fix q
    let ?st = "onDisconnect u s (st\<lparr>sockets := (sockets st)(s := None), rooms := (\<lambda>r. rooms st r - {s})\<rparr>)"
    show "rooms ?st q = {s'. \<exists>u'. sockets ?st s' = Some u' \<and> q = ''user:'' @ u'}"
      using r [of q]
      by (auto simp: onDisconnect_def Let_def split: option.splits)
  qed
qed

lemma registryConsistent_io: "registryConsistent (st\<lparr>io := b\<rparr>) = registryConsistent st"
  by (simp add: registryConsistent_def openChannels_def)

lemma registryConsistent_step:
  "registryConsistent st \<Longrightarrow> ws_step e st = Some st1 \<Longrightarrow> registryConsistent st1"
proof (cases e)
  case Initialize
  assume "registryConsistent st" "ws_step e st = Some st1"
  then show ?thesis using Initialize
    by (auto simp: registryConsistent_io split: if_splits)
next
  case (Connect u s)
  assume "registryConsistent st" "ws_step e st = Some st1"
  then show ?thesis using Connect registryConsistent_connect [of st s u]
    by (auto split: if_splits)
next
  case (Disconnect s)
  assume "registryConsistent st" "ws_step e st = Some st1"
  then show ?thesis using Disconnect registryConsistent_disconnect [of st s]
    by (auto split: option.splits)
qed

lemma registryConsistent_run:
  "registryConsistent st \<Longrightarrow> ws_run es st = Some st1 \<Longrightarrow> registryConsistent st1"
proof (induction es arbitrary: st)
  case Nil
  then show ?case by simp
next
  case (Cons e es)
  then show ?case
    by (auto split: option.splits dest: registryConsistent_step)
qed

lemma registryConsistent_reachable:
  "ws_run events ws_initial = Some st \<Longrightarrow> registryConsistent st"
  using registryConsistent_run [OF registryConsistent_initial] .

lemma openChannels_disconnect:
  "openChannels (onDisconnect u s (st\<lparr>sockets := (sockets st)(s := None), rooms := q\<rparr>)) v =
   openChannels st v - {s}"
  by (auto simp: onDisconnect_def Let_def openChannels_def split: option.splits)

text \<open>
  Claim C9. After every sequence of events that can happen, \<open>isUserConnected\<close> is true
  for a user exactly when the user has an open channel, and the registry has an entry for
  the user exactly then. When a channel of the user closes, the user stays connected
  exactly when it had another open channel (so it does after two channels were opened and
  one closed), and the entry is removed exactly when the channel was the last one (so
  \<open>isUserConnected\<close> is false after the only channel closed).
\<close>

theorem isUserConnected_iff_open_channel:
  assumes "ws_run events ws_initial = Some st"
  shows "isUserConnected st userId = (openChannels st userId \<noteq> {})
    \<and> (connectedUsers st userId \<noteq> None) = (openChannels st userId \<noteq> {})
    \<and> (\<forall>socketId st1.
          sockets st socketId = Some userId \<and> ws_step (Disconnect socketId) st = Some st1 \<longrightarrow>
            isUserConnected st1 userId = (openChannels st userId \<noteq> {socketId})
            \<and> (connectedUsers st1 userId = None) = (openChannels st userId = {socketId}))"
proof -
  have inv: "registryConsistent st"
    using assms by (rule registryConsistent_reachable)
  then have c: "connectedUsers st userId =
      (if openChannels st userId = {} then None else Some (openChannels st userId))"
    by (simp add: registryConsistent_def)
  have closing: "isUserConnected st1 userId = (openChannels st userId \<noteq> {socketId})
      \<and> (connectedUsers st1 userId = None) = (openChannels st userId = {socketId})"
    if s: "sockets st socketId = Some userId" and d: "ws_step (Disconnect socketId) st = Some st1"
    for socketId st1
  proof -
    have "registryConsistent st1" using inv d by (rule registryConsistent_step)
    then have c1: "connectedUsers st1 userId =
        (if openChannels st1 userId = {} then None else Some (openChannels st1 userId))"
      by (simp add: registryConsistent_def)
    have o: "openChannels st1 userId = openChannels st userId - {socketId}"
      using s d by (auto simp: openChannels_disconnect)
    have m: "socketId \<in> openChannels st userId" using s by (simp add: openChannels_def)
    have e: "(openChannels st userId - {socketId} = {}) = (openChannels st userId = {socketId})"
      using m by auto
    have a: "isUserConnected st1 userId = (openChannels st1 userId \<noteq> {})"
      and b: "(connectedUsers st1 userId = None) = (openChannels st1 userId = {})"
      by (simp_all add: isUserConnected_def c1)
    show ?thesis unfolding a b o e by simp
  qed
  have now: "isUserConnected st userId = (openChannels st userId \<noteq> {})"
    "(connectedUsers st userId \<noteq> None) = (openChannels st userId \<noteq> {})"
    using c by (simp_all add: isUserConnected_def)
  show ?thesis
  proof (intro conjI allI impI)
    show "isUserConnected st userId = (openChannels st userId \<noteq> {})" by (rule now(1))
    show "(connectedUsers st userId \<noteq> None) = (openChannels st userId \<noteq> {})" by (rule now(2))
  next
    fix socketId st1
    assume "sockets st socketId = Some userId \<and> ws_step (Disconnect socketId) st = Some st1"
    then show "isUserConnected st1 userId = (openChannels st userId \<noteq> {socketId})"
      and "(connectedUsers st1 userId = None) = (openChannels st userId = {socketId})"
      using closing [of socketId st1] by blast+
  qed
qed

text \<open>
  Claim C9 at an input: after two channels of a user were opened and one of them closed,
  the user is connected; a user without a channel is not.
\<close>

theorem isUserConnected_iff_open_channel_witness:
  "(case ws_run [Initialize, Connect ''u1'' ''s1'', Connect ''u1'' ''s2'', Disconnect ''s1''] ws_initial of
      None \<Rightarrow> False
    | Some st \<Rightarrow> isUserConnected st ''u1'' \<and> \<not> isUserConnected st ''u2'')"
proof -
  let ?events = "[Initialize, Connect ''u1'' ''s1'', Connect ''u1'' ''s2'', Disconnect ''s1'']"
  have "ws_run ?events ws_initial \<noteq> None"
    by (simp add: ws_initial_def onConnection_def onDisconnect_def Let_def)
  then obtain st where st: "ws_run ?events ws_initial = Some st" by auto
  have "sockets st = [''s2'' \<mapsto> ''u1'']"
    using st by (auto simp: ws_initial_def onConnection_def onDisconnect_def Let_def)
  then have "openChannels st ''u1'' \<noteq> {}" and "openChannels st ''u2'' = {}"
    by (auto simp: openChannels_def split: if_splits)
  with isUserConnected_iff_open_channel [OF st, of "''u1''"]
    isUserConnected_iff_open_channel [OF st, of "''u2''"]
  have "isUserConnected st ''u1'' \<and> \<not> isUserConnected st ''u2''" by simp
  then show ?thesis unfolding st by simp
qed

lemma isUserConnected_only_channel_closed:
  "map_option (\<lambda>st. (isUserConnected st ''u1'', connectedUsers st ''u1''))
     (ws_run [Initialize, Connect ''u1'' ''s1'', Disconnect ''s1''] ws_initial) = Some (False, None)"
  by (simp add: ws_initial_def onConnection_def onDisconnect_def Let_def isUserConnected_def)

text \<open>
  Claim C4, as the code has it. After every sequence of events that can happen,
  \<open>sendAlert\<close> returns true exactly when the Socket.IO server has been created, whether
  or not the user has an open channel, and the alert goes to every open channel of the
  user. For a user without a channel and a server that runs, it returns true and
  nothing is delivered; it never throws.
\<close>

theorem sendAlert_returns_initialized:
  assumes "ws_run events ws_initial = Some st"
  shows "fst (sendAlert st userId alertData) = io st
    \<and> snd (sendAlert st userId alertData) =
        (if io st then (\<lambda>socketId. (socketId, alertData)) ` openChannels st userId else {})"
proof -
  have "registryConsistent st"
    using assms by (rule registryConsistent_reachable)
  then have "rooms st (''user:'' @ userId) = openChannels st userId"
    by (auto simp: registryConsistent_def openChannels_def)
  then show ?thesis by (simp add: sendAlert_def)
qed

text \<open>
  Claim C4 as stated fails: once the server is created, an alert for a user without an
  open channel is delivered to no channel, and \<open>sendAlert\<close> returns true.
\<close>

theorem sendAlert_offline_counterexample:
  "ws_run [Initialize] ws_initial = Some sampleServerIdle
   \<and> openChannels sampleServerIdle ''u1'' = {}
   \<and> sendAlert sampleServerIdle ''u1'' ''THREAT_ALERT'' = (True, {})"
  by (simp add: ws_initial_def sampleServerIdle_def openChannels_def sendAlert_def)

text \<open>
  Claim C4 as amended at an input: with the server created and no channel open,
  \<open>sendAlert\<close> returns true and delivers to no channel.
\<close>

theorem sendAlert_returns_initialized_witness:
  "fst (sendAlert sampleServerIdle ''u1'' ''THREAT_ALERT'') = True
   \<and> snd (sendAlert sampleServerIdle ''u1'' ''THREAT_ALERT'') = {}"
proof -
  have r: "ws_run [Initialize] ws_initial = Some sampleServerIdle"
    by (simp add: ws_initial_def sampleServerIdle_def)
  have "openChannels sampleServerIdle ''u1'' = {}"
    by (simp add: sampleServerIdle_def openChannels_def)
  with sendAlert_returns_initialized [OF r, of "''u1''" "''THREAT_ALERT''"] show ?thesis
    by (simp add: sampleServerIdle_def)
qed

section \<open>Content analysis: the claims\<close>







lemma analyze_text:
  assumes "content \<noteq> []"
  shows "contentScore (analyzeContentForFraud now (JSString content)) = textScore content"
    and "contentRiskLevel (analyzeContentForFraud now (JSString content)) =
           Some (fst (contentRisk (textScore content)))"
  using assms
  by (simp_all add: analyzeContentForFraud_def textScore_def Let_def split: prod.splits)






text \<open>
  Claim C10. For a content that is the empty string, null, or not a string, the analyser
  returns the object with \<open>isSuspicious: false\<close>, \<open>score: 0\<close> and no findings, and with
  no other field: no \<open>riskLevel\<close> in particular, which the result for every string that
  is not empty has. The analyser has no statement that throws.
\<close>

theorem analyzeContentForFraud_no_content:
  "(content = JSString [] \<or> content = JSNull \<or> typeofJS content \<noteq> ''string'' \<longrightarrow>
      analyzeContentForFraud now content =
        \<lparr>isSuspicious = False, contentScore = 0, contentRiskLevel = None,
         contentRiskMessage = None, findings = [], analyzedAt = None\<rparr>)
   \<and> (\<forall>s. s \<noteq> [] \<longrightarrow> contentRiskLevel (analyzeContentForFraud now (JSString s)) \<noteq> None)"
proof (intro conjI impI allI)
  assume "content = JSString [] \<or> content = JSNull \<or> typeofJS content \<noteq> ''string''"
  then show "analyzeContentForFraud now content =
        \<lparr>isSuspicious = False, contentScore = 0, contentRiskLevel = None,
         contentRiskMessage = None, findings = [], analyzedAt = None\<rparr>"
    by (auto simp: analyzeContentForFraud_def)
next
  fix s :: string
  assume "s \<noteq> []"
  then show "contentRiskLevel (analyzeContentForFraud now (JSString s)) \<noteq> None"
    by (simp add: analyze_text)
qed

text \<open>
  Claim C10 at inputs: null, the empty string and a number give the result without
  \<open>riskLevel\<close>; the string \<open>hello\<close> gives a result with one.
\<close>

theorem analyzeContentForFraud_no_content_witness:
  "analyzeContentForFraud 0 JSNull =
        \<lparr>isSuspicious = False, contentScore = 0, contentRiskLevel = None,
         contentRiskMessage = None, findings = [], analyzedAt = None\<rparr>
   \<and> analyzeContentForFraud 0 (JSString '''') =
        \<lparr>isSuspicious = False, contentScore = 0, contentRiskLevel = None,
         contentRiskMessage = None, findings = [], analyzedAt = None\<rparr>
   \<and> analyzeContentForFraud 0 (JSNumber 42) =
        \<lparr>isSuspicious = False, contentScore = 0, contentRiskLevel = None,
         contentRiskMessage = None, findings = [], analyzedAt = None\<rparr>
   \<and> contentRiskLevel (analyzeContentForFraud 0 (JSString ''hello'')) \<noteq> None"
  using analyzeContentForFraud_no_content [of JSNull 0] analyzeContentForFraud_no_content [of "JSString ''''" 0] analyzeContentForFraud_no_content [of "JSNumber 42" 0]
  by simp

end
